theory Spec2Isabelle
  imports Complex_Main
begin

section \<open>Python strings as lists of code points\<close>

text \<open>
  A Python \<open>str\<close> is a sequence of Unicode code points: \<open>len\<close>, slicing, \<open>split\<close>,
  \<open>strip\<close> and the \<open>re\<close> module all count code points. The headings that the parser
  looks for contain code points beyond one byte (U+1F4DD, U+23F1, U+FE0F), so a string
  is modelled as a list of code points, each a natural number.
\<close>

type_synonym ustr = "nat list"

definition ascii :: "string \<Rightarrow> ustr" where
  "ascii s = map of_char s"

text \<open>
  \<open>str.isspace\<close>, \<open>str.strip()\<close> and the class \<open>\s\<close> of a \<open>str\<close> pattern use the same
  set of code points.
\<close>

definition is_space :: "nat \<Rightarrow> bool" where
  "is_space c \<longleftrightarrow>
     (9 \<le> c \<and> c \<le> 13) \<or> (28 \<le> c \<and> c \<le> 32) \<or> c = 133 \<or> c = 160 \<or> c = 5760 \<or>
     (8192 \<le> c \<and> c \<le> 8202) \<or> c = 8232 \<or> c = 8233 \<or> c = 8239 \<or> c = 8287 \<or>
     c = 12288"

text \<open>
  The class \<open>\d\<close> of a \<open>str\<close> pattern is the decimal digits of Unicode (category Nd);
  the table is that of Unicode 14.0, as inclusive ranges.
\<close>

definition nd_ranges :: "(nat \<times> nat) list" where
  "nd_ranges =
    [(48, 57), (1632, 1641), (1776, 1785), (1984, 1993), (2406, 2415), (2534, 2543),
     (2662, 2671), (2790, 2799), (2918, 2927), (3046, 3055), (3174, 3183), (3302, 3311),
     (3430, 3439), (3558, 3567), (3664, 3673), (3792, 3801), (3872, 3881), (4160, 4169),
     (4240, 4249), (6112, 6121), (6160, 6169), (6470, 6479), (6608, 6617), (6784, 6793),
     (6800, 6809), (6992, 7001), (7088, 7097), (7232, 7241), (7248, 7257), (42528, 42537),
     (43216, 43225), (43264, 43273), (43472, 43481), (43504, 43513), (43600, 43609),
     (44016, 44025), (65296, 65305), (66720, 66729), (68912, 68921), (69734, 69743),
     (69872, 69881), (69942, 69951), (70096, 70105), (70384, 70393), (70736, 70745),
     (70864, 70873), (71248, 71257), (71360, 71369), (71472, 71481), (71904, 71913),
     (72016, 72025), (72784, 72793), (73040, 73049), (73120, 73129), (92768, 92777),
     (92864, 92873), (93008, 93017), (120782, 120831), (123200, 123209), (123632, 123641),
     (125264, 125273), (130032, 130041)]"

definition is_decimal :: "nat \<Rightarrow> bool" where
  "is_decimal c = list_ex (\<lambda>(lo, hi). lo \<le> c \<and> c \<le> hi) nd_ranges"

text \<open>\<open>s.strip()\<close>: whitespace removed at both ends.\<close>

definition py_strip :: "ustr \<Rightarrow> ustr" where
  "py_strip s = rev (dropWhile is_space (rev (dropWhile is_space s)))"

text \<open>
  \<open>s.split(sep)\<close> for a separator of one code point: the pieces between the separators,
  at least one piece (\<open>''.split('\n') == ['']\<close>).
\<close>

fun py_split :: "nat \<Rightarrow> ustr \<Rightarrow> ustr list" where
  "py_split sep [] = [[]]"
| "py_split sep (c # cs) =
     (if c = sep then [] # py_split sep cs
      else (case py_split sep cs of
              [] \<Rightarrow> [[c]]
            | l # ls \<Rightarrow> (c # l) # ls))"

section \<open>Timestamp codec (\<open>format_timestamp\<close>)\<close>

text \<open>
  \<^verbatim>\<open>
  def format_timestamp(seconds: float) -> str:
      seconds = int(seconds)
      m, s = divmod(seconds, 60)
      h, m = divmod(m, 60)
      if h > 0:
          return f"{h:02d}:{m:02d}:{s:02d}"
      return f"{m:02d}:{s:02d}"
  \<close>
  A float is a finite number, modelled as the real number it denotes, an infinity or a
  NaN. \<open>int(x)\<close> truncates a finite float towards zero; on an infinity it raises
  \<open>OverflowError\<close> and on a NaN \<open>ValueError\<close>. \<open>divmod\<close> on Python integers is floor
  division, as \<open>div\<close> and \<open>mod\<close> on \<open>int\<close> are.
\<close>

datatype py_float = Finite real | PosInf | NegInf | NaN

datatype py_error = OverflowError | ValueError | IndexError

definition py_trunc :: "real \<Rightarrow> int" where
  "py_trunc x = (if 0 \<le> x then \<lfloor>x\<rfloor> else \<lceil>x\<rceil>)"

definition py_int :: "py_float \<Rightarrow> py_error + int" where
  "py_int x =
     (case x of
        Finite r \<Rightarrow> Inr (py_trunc r)
      | PosInf \<Rightarrow> Inl OverflowError
      | NegInf \<Rightarrow> Inl OverflowError
      | NaN \<Rightarrow> Inl ValueError)"

fun dec_digits :: "nat \<Rightarrow> ustr" where
  "dec_digits n = (if n < 10 then [48 + n] else dec_digits (n div 10) @ [48 + n mod 10])"

declare dec_digits.simps [simp del]

definition zero_pad :: "nat \<Rightarrow> ustr \<Rightarrow> ustr" where
  "zero_pad w ds = replicate (w - length ds) 48 @ ds"

text \<open>
  The format specification \<open>02d\<close>: decimal, zero-padded to a minimum width of two, the
  sign of a negative number counted in the width and written before the zeros.
\<close>

definition fmt_02d :: "int \<Rightarrow> ustr" where
  "fmt_02d n =
     (if n < 0 then 45 # zero_pad 1 (dec_digits (nat (- n)))
      else zero_pad 2 (dec_digits (nat n)))"

text \<open>The function after the conversion \<open>seconds = int(seconds)\<close>.\<close>

definition format_hms :: "int \<Rightarrow> ustr" where
  "format_hms secs =
     (let m = secs div 60; s = secs mod 60;
          h = m div 60; m' = m mod 60
      in if h > 0 then fmt_02d h @ [58] @ fmt_02d m' @ [58] @ fmt_02d s
         else fmt_02d m' @ [58] @ fmt_02d s)"

definition format_timestamp :: "py_float \<Rightarrow> py_error + ustr" where
  "format_timestamp seconds =
     (case py_int seconds of
        Inl e \<Rightarrow> Inl e
      | Inr secs \<Rightarrow> Inr (format_hms secs))"

subsection \<open>Reading a timestamp back\<close>

text \<open>
  The repository has no function that reads a timestamp. The reading that the property of
  the codec speaks of follows the specification's words: the text is split at the colons,
  each field is read as a decimal number, three fields are hours, minutes and seconds,
  two fields are minutes and seconds, and the total is counted in seconds.
\<close>

definition is_ascii_digit :: "nat \<Rightarrow> bool" where
  "is_ascii_digit c \<longleftrightarrow> 48 \<le> c \<and> c \<le> 57"

definition digits_value :: "ustr \<Rightarrow> nat" where
  "digits_value ds = foldl (\<lambda>a d. 10 * a + (d - 48)) 0 ds"

definition read_field :: "ustr \<Rightarrow> nat option" where
  "read_field ds =
     (if ds \<noteq> [] \<and> list_all is_ascii_digit ds then Some (digits_value ds) else None)"

definition reparse_timestamp :: "ustr \<Rightarrow> int option" where
  "reparse_timestamp t =
     (case map read_field (py_split 58 t) of
        [Some h, Some m, Some s] \<Rightarrow> Some (int h * 3600 + int m * 60 + int s)
      | [Some m, Some s] \<Rightarrow> Some (int m * 60 + int s)
      | _ \<Rightarrow> None)"

section \<open>Output parser (\<open>parse_gemini_output\<close>)\<close>

text \<open>
  \<^verbatim>\<open>
  class KeyTopic(BaseModel):
      timestamp: str = Field(..., description=...)
      topic: str = Field(..., description=...)

  class VideoAnalysis(BaseModel):
      title: str = Field(..., description=...)
      executive_summary: str = Field(..., description=...)
      key_topics: List[KeyTopic] = Field(..., description=...)

  class TranscriptSegment(BaseModel):
      start: float
      text: str
  \<close>
  \<open>Field(...)\<close> makes a field required; it puts no condition on the string, so
  constructing a record from strings never fails. The field \<open>text\<close> of a segment is
  named \<open>segment_text\<close> here.
\<close>

record KeyTopic =
  timestamp :: ustr
  topic :: ustr

record VideoAnalysis =
  title :: ustr
  executive_summary :: ustr
  key_topics :: "KeyTopic list"

record TranscriptSegment =
  start :: py_float
  segment_text :: ustr

subsection \<open>Pieces of the regular expressions\<close>

text \<open>
  A literal of a pattern compiled without flags: the subject must start with it; the
  result is the rest of the subject.
\<close>

fun lit :: "ustr \<Rightarrow> ustr \<Rightarrow> ustr option" where
  "lit [] s = Some s"
| "lit (p # ps) [] = None"
| "lit (p # ps) (c # cs) = (if c = p then lit ps cs else None)"

text \<open>
  A literal under \<open>re.IGNORECASE\<close>. For a pattern letter of ASCII the subject may have
  either case of it; besides, \<open>k\<close> also matches U+212A (Kelvin sign), \<open>i\<close> also
  U+0130 and U+0131 (dotted capital and dotless small i) and \<open>s\<close> also U+017F (long
  s). Every other code point of the patterns below (space, \<open>#\<close>, \<open>:\<close>, \<open>&\<close>, line
  feed, U+1F4DD, U+23F1, U+FE0F) has no case and matches only itself.
\<close>

definition lower_ascii :: "nat \<Rightarrow> nat" where
  "lower_ascii c = (if 65 \<le> c \<and> c \<le> 90 then c + 32 else c)"

definition ci_char :: "nat \<Rightarrow> nat \<Rightarrow> bool" where
  "ci_char p c \<longleftrightarrow>
     lower_ascii c = lower_ascii p \<or>
     (lower_ascii p = 107 \<and> c = 8490) \<or>
     (lower_ascii p = 105 \<and> (c = 304 \<or> c = 305)) \<or>
     (lower_ascii p = 115 \<and> c = 383)"

fun lit_ci :: "ustr \<Rightarrow> ustr \<Rightarrow> ustr option" where
  "lit_ci [] s = Some s"
| "lit_ci (p # ps) [] = None"
| "lit_ci (p # ps) (c # cs) = (if ci_char p c then lit_ci ps cs else None)"

text \<open>
  \<open>re.search\<close>: the pattern is tried at every position from the left, the end of the
  subject included, and the first position where it matches wins. The first argument is
  the pattern as a matcher at a given position, which returns what the match captures.
\<close>

fun re_search :: "(ustr \<Rightarrow> 'a option) \<Rightarrow> ustr \<Rightarrow> 'a option" where
  "re_search m [] = m []"
| "re_search m (c # cs) = (case m (c # cs) of Some g \<Rightarrow> Some g | None \<Rightarrow> re_search m cs)"

text \<open>\<open>\s*\<close> followed by something that is no whitespace takes all the whitespace there is.\<close>

definition skip_spaces :: "ustr \<Rightarrow> ustr" where
  "skip_spaces s = dropWhile is_space s"

text \<open>\<open>(.*)\<close> without \<open>re.DOTALL\<close>, at the end of a pattern: up to the next line feed.\<close>

definition rest_of_line :: "ustr \<Rightarrow> ustr" where
  "rest_of_line s = takeWhile (\<lambda>c. c \<noteq> 10) s"

subsection \<open>The patterns of the parser\<close>

text \<open>
  Title: \<^verbatim>\<open>re.search(r"##\s*Title:\s*(.*)", gemini_output, re.IGNORECASE)\<close>;
  the result is group 1.
\<close>

definition title_re_at :: "ustr \<Rightarrow> ustr option" where
  "title_re_at s =
     (case lit_ci (ascii ''##'') s of
        None \<Rightarrow> None
      | Some r1 \<Rightarrow>
          (case lit_ci (ascii ''Title:'') (skip_spaces r1) of
             None \<Rightarrow> None
           | Some r2 \<Rightarrow> Some (rest_of_line (skip_spaces r2))))"

text \<open>
  The two headings. In the source the first is U+1F4DD followed by
  \<open>" Executive Summary"\<close> and the second is U+23F1 U+FE0F followed by
  \<open>" Key Topics & Timestamps"\<close>.
\<close>

definition summary_heading :: ustr where
  "summary_heading = 128221 # ascii '' Executive Summary''"

definition topics_heading :: ustr where
  "topics_heading = 9201 # 65039 # ascii '' Key Topics & Timestamps''"

text \<open>
  Executive summary: the pattern is \<open>##\s*\<close>, the first heading, a line feed, the lazy
  group \<open>(.*?)\<close> and the lookahead \<open>(?=\n\n##\s*\<close> second heading \<open>|\Z)\<close>, searched
  with \<open>re.DOTALL | re.IGNORECASE\<close>. The lazy group stops at the first position where
  the lookahead holds, which the end of the text always does.
\<close>

definition summary_heading_at :: "ustr \<Rightarrow> ustr option" where
  "summary_heading_at s =
     (case lit_ci (ascii ''##'') s of
        None \<Rightarrow> None
      | Some r \<Rightarrow> lit_ci (summary_heading @ [10]) (skip_spaces r))"

definition topics_lookahead :: "ustr \<Rightarrow> bool" where
  "topics_lookahead s =
     (case lit_ci [10, 10, 35, 35] s of
        None \<Rightarrow> False
      | Some r \<Rightarrow> lit_ci topics_heading (skip_spaces r) \<noteq> None)"

fun lazy_until :: "(ustr \<Rightarrow> bool) \<Rightarrow> ustr \<Rightarrow> ustr" where
  "lazy_until stop [] = []"
| "lazy_until stop (c # cs) = (if stop (c # cs) then [] else c # lazy_until stop cs)"

definition summary_re_at :: "ustr \<Rightarrow> ustr option" where
  "summary_re_at s = map_option (lazy_until topics_lookahead) (summary_heading_at s)"

text \<open>
  Key topics: the pattern is \<open>##\s*\<close>, the second heading, a line feed and \<open>(.*)\<close>,
  searched with \<open>re.DOTALL | re.IGNORECASE\<close>; group 1 is the rest of the text.
\<close>

definition topics_re_at :: "ustr \<Rightarrow> ustr option" where
  "topics_re_at s =
     (case lit_ci (ascii ''##'') s of
        None \<Rightarrow> None
      | Some r \<Rightarrow> lit_ci (topics_heading @ [10]) (skip_spaces r))"

text \<open>
  A bullet:
  \<^verbatim>\<open>re.match(r"^- \*\*\[(\d{2}:\d{2}(?:\:\d{2})?)\]\*\*\s*(.*)", line)\<close>
  (the other copy of the parser writes \<open>(?::\d{2})?\<close>, the same pattern). The optional
  group is tried first; when the rest of the pattern fails after it, the match is tried
  again without it. The result is groups 1 and 2.
\<close>

definition re_digits2 :: "ustr \<Rightarrow> ustr option" where
  "re_digits2 s =
     (case s of
        a # b # r \<Rightarrow> if is_decimal a \<and> is_decimal b then Some r else None
      | _ \<Rightarrow> None)"

definition re_mmss :: "ustr \<Rightarrow> ustr option" where
  "re_mmss s =
     (case re_digits2 s of
        None \<Rightarrow> None
      | Some r \<Rightarrow> (case lit [58] r of None \<Rightarrow> None | Some r' \<Rightarrow> re_digits2 r'))"

definition re_colon_ss :: "ustr \<Rightarrow> ustr option" where
  "re_colon_ss s = (case lit [58] s of None \<Rightarrow> None | Some r \<Rightarrow> re_digits2 r)"

definition bullet_tail :: "ustr \<Rightarrow> ustr option" where
  "bullet_tail s = map_option (\<lambda>r. rest_of_line (skip_spaces r)) (lit (ascii '']**'') s)"

definition bullet_re_match :: "ustr \<Rightarrow> (ustr \<times> ustr) option" where
  "bullet_re_match line =
     (case lit (ascii ''- **['') line of
        None \<Rightarrow> None
      | Some r0 \<Rightarrow>
          (case re_mmss r0 of
             None \<Rightarrow> None
           | Some r1 \<Rightarrow>
               (case Option.bind (re_colon_ss r1) bullet_tail of
                  Some g2 \<Rightarrow> Some (take 8 r0, g2)
                | None \<Rightarrow> map_option (\<lambda>g2. (take 5 r0, g2)) (bullet_tail r1))))"

text \<open>
  First line: \<^verbatim>\<open>re.match(r"^(?!##)(.*)", gemini_output.split('\n')[0])\<close>.
\<close>

definition first_line_re_match :: "ustr \<Rightarrow> ustr option" where
  "first_line_re_match fl = (if lit (ascii ''##'') fl \<noteq> None then None else Some (rest_of_line fl))"

text \<open>\<open>s.split(sep)[0]\<close>; \<open>split\<close> never returns an empty list.\<close>

definition py_split_first :: "nat \<Rightarrow> ustr \<Rightarrow> ustr" where
  "py_split_first sep s = (case py_split sep s of [] \<Rightarrow> [] | p # _ \<Rightarrow> p)"

subsection \<open>The parser\<close>

text \<open>
  The loop over the lines of the key-topics section:
  \<^verbatim>\<open>
  for line in key_topics_text.split('\n'):
      line = line.strip()
      key_topic_match = re.match(..., line)
      if key_topic_match:
          timestamp = key_topic_match.group(1)
          topic = key_topic_match.group(2).strip()
          key_topics.append(KeyTopic(timestamp=timestamp, topic=topic))
  \<close>
\<close>

fun collect_key_topics :: "ustr list \<Rightarrow> KeyTopic list" where
  "collect_key_topics [] = []"
| "collect_key_topics (line # lines) =
     (case bullet_re_match (py_strip line) of
        Some (ts, g2) \<Rightarrow> \<lparr>timestamp = ts, topic = py_strip g2\<rparr> # collect_key_topics lines
      | None \<Rightarrow> collect_key_topics lines)"

definition extract_title :: "ustr \<Rightarrow> ustr" where
  "extract_title gemini_output =
     (case re_search title_re_at gemini_output of Some g \<Rightarrow> py_strip g | None \<Rightarrow> [])"

definition extract_summary :: "ustr \<Rightarrow> ustr" where
  "extract_summary gemini_output =
     (case re_search summary_re_at gemini_output of Some g \<Rightarrow> py_strip g | None \<Rightarrow> [])"

definition extract_key_topics :: "ustr \<Rightarrow> KeyTopic list" where
  "extract_key_topics gemini_output =
     (case re_search topics_re_at gemini_output of
        Some key_topics_text \<Rightarrow> collect_key_topics (py_split 10 key_topics_text)
      | None \<Rightarrow> [])"

text \<open>
  \<^verbatim>\<open>
  if not title:
      first_line_match = re.match(r"^(?!##)(.*)", gemini_output.split('\n')[0])
      if first_line_match:
          title = first_line_match.group(1).strip()
  \<close>
\<close>

definition title_from_first_line :: "ustr \<Rightarrow> ustr \<Rightarrow> ustr" where
  "title_from_first_line gemini_output title0 =
     (if title0 = [] then
        (case first_line_re_match (py_split_first 10 gemini_output) of
           Some g \<Rightarrow> py_strip g
         | None \<Rightarrow> title0)
      else title0)"

text \<open>
  \<^verbatim>\<open>
  if not title and executive_summary:
      first_sentence_summary = executive_summary.split('.')[0].strip()
      if first_sentence_summary:
          title = first_sentence_summary
          if len(title) > 100:
              title = title[:97] + "..."
  \<close>
\<close>

definition title_from_first_sentence :: "ustr \<Rightarrow> ustr \<Rightarrow> ustr" where
  "title_from_first_sentence summary title0 =
     (if title0 = [] \<and> summary \<noteq> [] then
        (let first_sentence_summary = py_strip (py_split_first 46 summary)
         in if first_sentence_summary \<noteq> [] then
              (if length first_sentence_summary > 100
               then take 97 first_sentence_summary @ ascii ''...''
               else first_sentence_summary)
            else title0)
      else title0)"

text \<open>
  Only in \<open>GeminiAnalyzer._parse_gemini_output\<close> (analyzer.py):
  \<^verbatim>\<open>
  if not title and executive_summary:
      title = executive_summary[:100] + "..." if len(executive_summary) > 100 \
              else executive_summary
  \<close>
\<close>

definition title_from_summary :: "ustr \<Rightarrow> ustr \<Rightarrow> ustr" where
  "title_from_summary summary title0 =
     (if title0 = [] \<and> summary \<noteq> [] then
        (if length summary > 100 then take 100 summary @ ascii ''...'' else summary)
      else title0)"

text \<open>\<open>parse_gemini_output\<close> of agent\_scraper.py.\<close>

definition parse_gemini_output :: "ustr \<Rightarrow> VideoAnalysis" where
  "parse_gemini_output gemini_output =
     (let title0 = extract_title gemini_output;
          summary = extract_summary gemini_output;
          topics = extract_key_topics gemini_output;
          title1 = title_from_first_line gemini_output title0;
          title2 = title_from_first_sentence summary title1
      in \<lparr>title = title2, executive_summary = summary, key_topics = topics\<rparr>)"

text \<open>\<open>GeminiAnalyzer._parse_gemini_output\<close> of analyzer.py.\<close>

definition analyzer_parse_gemini_output :: "ustr \<Rightarrow> VideoAnalysis" where
  "analyzer_parse_gemini_output gemini_output =
     (let title0 = extract_title gemini_output;
          summary = extract_summary gemini_output;
          topics = extract_key_topics gemini_output;
          title1 = title_from_first_line gemini_output title0;
          title2 = title_from_first_sentence summary title1;
          title3 = title_from_summary summary title2
      in \<lparr>title = title3, executive_summary = summary, key_topics = topics\<rparr>)"

subsection \<open>The parser with the steps that Python can refuse\<close>

text \<open>
  Two steps of the parser can raise in Python: the indexings \<open>[0]\<close> of the lists that
  \<open>gemini_output.split('\n')\<close> and \<open>executive_summary.split('.')\<close> return, which raise
  \<open>IndexError\<close> on an empty list. No other step can: \<open>re.search\<close> and \<open>re.match\<close>
  return a match or \<open>None\<close>, \<open>group\<close> is called only on a match that was tested,
  \<open>strip\<close> and slices are defined on every string, and the records are built from
  strings. Here the two parsers are written once more with these two steps as results
  that may be an error.
\<close>

definition py_item0 :: "ustr list \<Rightarrow> py_error + ustr" where
  "py_item0 xs = (case xs of [] \<Rightarrow> Inl IndexError | x # _ \<Rightarrow> Inr x)"

definition title_from_first_line_or_error :: "ustr \<Rightarrow> ustr \<Rightarrow> py_error + ustr" where
  "title_from_first_line_or_error gemini_output title0 =
     (if title0 = [] then
        (case py_item0 (py_split 10 gemini_output) of
           Inl e \<Rightarrow> Inl e
         | Inr fl \<Rightarrow>
             (case first_line_re_match fl of
                Some g \<Rightarrow> Inr (py_strip g)
              | None \<Rightarrow> Inr title0))
      else Inr title0)"

definition title_from_first_sentence_or_error :: "ustr \<Rightarrow> ustr \<Rightarrow> py_error + ustr" where
  "title_from_first_sentence_or_error summary title0 =
     (if title0 = [] \<and> summary \<noteq> [] then
        (case py_item0 (py_split 46 summary) of
           Inl e \<Rightarrow> Inl e
         | Inr piece \<Rightarrow>
             (let first_sentence_summary = py_strip piece
              in if first_sentence_summary \<noteq> [] then
                   Inr (if length first_sentence_summary > 100
                        then take 97 first_sentence_summary @ ascii ''...''
                        else first_sentence_summary)
                 else Inr title0))
      else Inr title0)"

definition parse_gemini_output_or_error :: "ustr \<Rightarrow> py_error + VideoAnalysis" where
  "parse_gemini_output_or_error gemini_output =
     (let title0 = extract_title gemini_output;
          summary = extract_summary gemini_output;
          topics = extract_key_topics gemini_output
      in case title_from_first_line_or_error gemini_output title0 of
           Inl e \<Rightarrow> Inl e
         | Inr title1 \<Rightarrow>
             (case title_from_first_sentence_or_error summary title1 of
                Inl e \<Rightarrow> Inl e
              | Inr title2 \<Rightarrow>
                  Inr \<lparr>title = title2, executive_summary = summary, key_topics = topics\<rparr>))"

definition analyzer_parse_gemini_output_or_error :: "ustr \<Rightarrow> py_error + VideoAnalysis" where
  "analyzer_parse_gemini_output_or_error gemini_output =
     (let title0 = extract_title gemini_output;
          summary = extract_summary gemini_output;
          topics = extract_key_topics gemini_output
      in case title_from_first_line_or_error gemini_output title0 of
           Inl e \<Rightarrow> Inl e
         | Inr title1 \<Rightarrow>
             (case title_from_first_sentence_or_error summary title1 of
                Inl e \<Rightarrow> Inl e
              | Inr title2 \<Rightarrow>
                  Inr \<lparr>title = title_from_summary summary title2,
                       executive_summary = summary, key_topics = topics\<rparr>))"

subsection \<open>A reply that follows the template\<close>

text \<open>
  The reply that the prompts ask for: a title line, the executive-summary heading with a
  paragraph, an empty line, and the key-topics heading with two bullets.
\<close>

definition template_reply :: ustr where
  "template_reply =
     ascii ''## Title: Intro to Go'' @ [10] @
     ascii ''## '' @ summary_heading @ [10] @
     ascii ''Go is a small language. This video shows the basics.'' @ [10, 10] @
     ascii ''## '' @ topics_heading @ [10] @
     ascii ''- **[00:10]** Setup'' @ [10] @
     ascii ''- **[01:02:03]** Wrap-up''"

text \<open>The same reply with any paragraph under the executive-summary heading.\<close>

definition template_with :: "ustr \<Rightarrow> ustr" where
  "template_with paragraph =
     ascii ''## Title: Intro to Go'' @ [10] @
     ascii ''## '' @ summary_heading @ [10] @
     paragraph @ [10, 10] @
     ascii ''## '' @ topics_heading @ [10] @
     ascii ''- **[00:10]** Setup'' @ [10] @
     ascii ''- **[01:02:03]** Wrap-up''"

subsection \<open>Replies used as examples\<close>

text \<open>A key-topics section without a bullet of the expected shape, and some garbage.\<close>

definition unmatched_reply :: ustr where
  "unmatched_reply =
     ascii ''## '' @ topics_heading @ [10] @ ascii ''- [00:10] Setup'' @ [10] @ [0, 255, 65533]"

text \<open>A bullet that is indented.\<close>

definition indented_bullet_reply :: ustr where
  "indented_bullet_reply =
     ascii ''## '' @ topics_heading @ [10] @ ascii ''  - **[00:10]** Setup''"

text \<open>A bullet with a timestamp and nothing after it.\<close>

definition empty_topic_reply :: ustr where
  "empty_topic_reply = ascii ''## '' @ topics_heading @ [10] @ ascii ''- **[00:10]**''"

text \<open>A heading that contains "Executive Summary", without the code point U+1F4DD.\<close>

definition plain_heading_reply :: ustr where
  "plain_heading_reply = ascii ''## Executive Summary'' @ [10] @ ascii ''Hello''"

text \<open>No title line; the summary starts with a period, or has a first sentence.\<close>

definition dot_reply :: ustr where
  "dot_reply = ascii ''## '' @ summary_heading @ [10] @ ascii ''.x''"

definition sentence_reply :: ustr where
  "sentence_reply = ascii ''## '' @ summary_heading @ [10] @ ascii ''Hello. World''"

section \<open>The properties in the specification's words\<close>

text \<open>
  A non-negative and a negative float, as the comparisons \<open>0 <= x\<close> and \<open>x < 0\<close> of
  Python decide: an infinity has a sign, a NaN is neither.
\<close>

definition py_nonneg :: "py_float \<Rightarrow> bool" where
  "py_nonneg x = (case x of Finite r \<Rightarrow> 0 \<le> r | PosInf \<Rightarrow> True | NegInf \<Rightarrow> False | NaN \<Rightarrow> False)"

definition py_negative :: "py_float \<Rightarrow> bool" where
  "py_negative x = (case x of Finite r \<Rightarrow> r < 0 | PosInf \<Rightarrow> False | NegInf \<Rightarrow> True | NaN \<Rightarrow> False)"

text \<open>
  The shape of a timestamp in the data model: \<open>\d{2}:\d{2}\<close> or \<open>\d{2}:\d{2}:\d{2}\<close>.
\<close>

definition is_timestamp_shape :: "ustr \<Rightarrow> bool" where
  "is_timestamp_shape t =
     (case t of
        [a, b, c, d, e] \<Rightarrow>
          is_decimal a \<and> is_decimal b \<and> c = 58 \<and> is_decimal d \<and> is_decimal e
      | [a, b, c, d, e, f, g, h] \<Rightarrow>
          is_decimal a \<and> is_decimal b \<and> c = 58 \<and> is_decimal d \<and> is_decimal e \<and> f = 58 \<and>
          is_decimal g \<and> is_decimal h
      | _ \<Rightarrow> False)"

text \<open>
  The fallback chain of the title, as the specification words it: (a) the first line of
  the text, trimmed, unless it starts with the heading marker \<open>##\<close>; (b) the summary up
  to its first period, trimmed, cut to 97 code points and an ellipsis when longer than
  100; (c) the summary, cut to 100 code points and an ellipsis when longer than 100. A
  candidate that is empty is passed over; (b) and (c) are empty when the summary is.
\<close>

definition first_line :: "ustr \<Rightarrow> ustr" where
  "first_line s = takeWhile (\<lambda>c. c \<noteq> 10) s"

definition starts_with_heading_marker :: "ustr \<Rightarrow> bool" where
  "starts_with_heading_marker l \<longleftrightarrow> take 2 l = [35, 35]"

definition title_fallback_a :: "ustr \<Rightarrow> ustr" where
  "title_fallback_a s =
     (if starts_with_heading_marker (first_line s) then [] else py_strip (first_line s))"

definition title_fallback_b :: "ustr \<Rightarrow> ustr" where
  "title_fallback_b summary =
     (let t = py_strip (takeWhile (\<lambda>c. c \<noteq> 46) summary)
      in if length t > 100 then take 97 t @ ascii ''...'' else t)"

definition title_fallback_c :: "ustr \<Rightarrow> ustr" where
  "title_fallback_c summary =
     (if length summary > 100 then take 100 summary @ ascii ''...'' else summary)"

definition first_nonempty :: "ustr list \<Rightarrow> ustr" where
  "first_nonempty cands = (case filter (\<lambda>c. c \<noteq> []) cands of [] \<Rightarrow> [] | c # _ \<Rightarrow> c)"

section \<open>The collaborators and the world\<close>

text \<open>
  The orchestrators call services outside the program: the transcript service, the
  downloader, the file system and the model service. What these answer in one run is
  given by a record, the world of the run; a call that raises an exception answers
  \<open>Raised\<close>. A run is then a function of the world that returns what the program
  produced, the files that exist afterwards and the calls it made, in order.
\<close>

datatype 'a outcome = Raised | Returned 'a

text \<open>The state of an uploaded file (\<open>audio_file.state.name\<close>).\<close>

datatype file_state = STATE_UNSPECIFIED | PROCESSING | ACTIVE | FAILED

type_synonym path = ustr

datatype event =
    FetchTranscript
  | GenerateFromText
  | DownloadAudio
  | UploadFile
  | GetFile
  | GenerateFromAudio
  | DeleteRemoteFile
  | RemoveLocalFile path

record world =
  fetch_result :: "TranscriptSegment list outcome"
  text_generation :: "ustr outcome"
  prompt_files_readable :: bool
  download_raises :: bool
  files_before :: "path set"
  files_after_download :: "path set"
  upload_result :: "file_state outcome"
  get_file_result :: "nat \<Rightarrow> file_state outcome"
  audio_generation :: "ustr outcome"
  delete_file_raises :: bool
  temp_file :: "path outcome"
  scraper_download :: "path option outcome"

text \<open>
  \<open>fetch_result\<close>: the transcript service (\<open>fetch\<close>, \<open>get_transcript\<close>,
  \<open>fetch_transcript\<close>); an absent transcript of main.py is the empty list.
  \<open>text_generation\<close> and \<open>audio_generation\<close>: the text of the model's reply to the
  text prompt and to the audio prompt. \<open>prompt_files_readable\<close>: whether auto\_scraper.py
  can open its prompt files. \<open>download_raises\<close>: whether \<open>ydl.download\<close> raises.
  \<open>files_before\<close> and \<open>files_after_download\<close>: the files that exist at the start and
  after the download was attempted. \<open>upload_result\<close>: the state of the file returned by
  \<open>genai.upload_file\<close>; \<open>get_file_result n\<close>: the state returned by call number \<open>n\<close>
  of \<open>genai.get_file\<close>. \<open>delete_file_raises\<close>: whether \<open>genai.delete_file\<close> raises.
  \<open>temp_file\<close>: the name of the file that \<open>tempfile.NamedTemporaryFile\<close> creates in
  main.py. \<open>scraper_download\<close>: the result of \<open>VideoScraper.download_audio\<close>.
\<close>

subsection \<open>Video identifier\<close>

text \<open>
  \<^verbatim>\<open>
  def get_video_id(url):
      if "youtu.be" in url:
          return url.split("/")[-1].split("?")[0]
      if "v=" in url:
          return url.split("v=")[1].split("&")[0]
      return None
  \<close>
\<close>

fun py_contains :: "ustr \<Rightarrow> ustr \<Rightarrow> bool" where
  "py_contains sub [] = (sub = [])"
| "py_contains sub (c # cs) = (lit sub (c # cs) \<noteq> None \<or> py_contains sub cs)"

text \<open>
  \<open>s.split(sep)\<close> for a separator of several code points. The separator of the source
  is never empty (an empty one raises \<open>ValueError\<close>); the test on the lengths only says
  that a match of the separator consumes something.
\<close>

fun py_split_str :: "ustr \<Rightarrow> ustr \<Rightarrow> ustr list" where
  "py_split_str sep [] = [[]]"
| "py_split_str sep (c # cs) =
     (case lit sep (c # cs) of
        Some r \<Rightarrow> (if length r \<le> length cs then [] # py_split_str sep r else [c # cs])
      | None \<Rightarrow>
          (case py_split_str sep cs of
             [] \<Rightarrow> [[c]]
           | l # ls \<Rightarrow> (c # l) # ls))"

definition py_split_last :: "nat \<Rightarrow> ustr \<Rightarrow> ustr" where
  "py_split_last sep s = (case rev (py_split sep s) of [] \<Rightarrow> [] | p # _ \<Rightarrow> p)"

definition get_video_id :: "ustr \<Rightarrow> ustr option" where
  "get_video_id url =
     (if py_contains (ascii ''youtu.be'') url then
        Some (py_split_first 63 (py_split_last 47 url))
      else if py_contains (ascii ''v='') url then
        (case py_split_str (ascii ''v='') url of
           _ # p # _ \<Rightarrow> Some (py_split_first 38 p)
         | _ \<Rightarrow> None)
      else None)"

text \<open>\<open>if not video_id\<close>: no identifier, or an empty one.\<close>

definition no_video_id :: "ustr option \<Rightarrow> bool" where
  "no_video_id v \<longleftrightarrow> (case v of None \<Rightarrow> True | Some i \<Rightarrow> i = [])"

subsection \<open>Downloading the audio\<close>

text \<open>
  \<^verbatim>\<open>
  def download_audio(url, output_filename="audio.mp3"):
      ...
      try:
          with yt_dlp.YoutubeDL(ydl_opts) as ydl:
              ydl.download([url])
          return output_filename
      except Exception as e:
          return None
  \<close>
  The same in agent\_scraper.py and auto\_scraper.py.
\<close>

definition download_audio :: "world \<Rightarrow> path option" where
  "download_audio w = (if download_raises w then None else Some (ascii ''audio.mp3''))"

subsection \<open>Waiting for the uploaded file\<close>

text \<open>
  \<^verbatim>\<open>
  while audio_file.state.name == "PROCESSING":
      ...
      time.sleep(5)
      audio_file = genai.get_file(audio_file.name)
  \<close>
  The loop of analyzer.py and auto\_scraper.py. It has no bound: a file that stays in
  \<open>PROCESSING\<close> keeps it running, and the result is then \<open>None\<close>. Otherwise the result
  is the last state, or \<open>Raised\<close> when \<open>get_file\<close> raised, with the number of calls of
  \<open>get_file\<close> made so far.
\<close>

partial_function (option) poll_file ::
  "(nat \<Rightarrow> file_state outcome) \<Rightarrow> nat \<Rightarrow> file_state \<Rightarrow> (file_state outcome \<times> nat) option"
where
  "poll_file get n st =
     (if st = PROCESSING then
        (case get n of
           Raised \<Rightarrow> Some (Raised, Suc n)
         | Returned st' \<Rightarrow> poll_file get (Suc n) st')
      else Some (Returned st, n))"

subsection \<open>Analysis of a transcript\<close>

text \<open>
  The text of the transcript, built by the three copies of \<open>analyze_transcript_data\<close>
  in the same way:
  \<^verbatim>\<open>
  full_text = ""
  for segment in transcript_segments:
      time_str = format_timestamp(segment.start)
      full_text += f"[{time_str}] {segment.text}\n"
  \<close>
  \<open>format_timestamp\<close> raises on a start that is no finite number, and the loop with it.
\<close>

fun format_transcript :: "TranscriptSegment list \<Rightarrow> py_error + ustr" where
  "format_transcript [] = Inr []"
| "format_transcript (segment # segments) =
     (case format_timestamp (start segment) of
        Inl e \<Rightarrow> Inl e
      | Inr time_str \<Rightarrow>
          (case format_transcript segments of
             Inl e \<Rightarrow> Inl e
           | Inr rest \<Rightarrow>
               Inr ([91] @ time_str @ [93, 32] @ segment_text segment @ [10] @ rest)))"

text \<open>
  \<open>analyze_transcript_data\<close> of agent\_scraper.py and of analyzer.py: after the loop the
  prompt is put together and
  \<^verbatim>\<open>
  response = model.generate_content(prompt)
  return parse_gemini_output(response.text)
  \<close>
  (analyzer.py logs an exception and raises it again). The reply of the model is the
  world's; the text of the transcript only enters the prompt.
\<close>

definition agent_analyze_transcript_data ::
  "world \<Rightarrow> TranscriptSegment list \<Rightarrow> VideoAnalysis outcome \<times> event list" where
  "agent_analyze_transcript_data w segments =
     (case format_transcript segments of
        Inl e \<Rightarrow> (Raised, [])
      | Inr full_text \<Rightarrow>
          (case text_generation w of
             Raised \<Rightarrow> (Raised, [GenerateFromText])
           | Returned reply \<Rightarrow> (Returned (parse_gemini_output reply), [GenerateFromText])))"

definition analyzer_analyze_transcript_data ::
  "world \<Rightarrow> TranscriptSegment list \<Rightarrow> VideoAnalysis outcome \<times> event list" where
  "analyzer_analyze_transcript_data w segments =
     (case format_transcript segments of
        Inl e \<Rightarrow> (Raised, [])
      | Inr full_text \<Rightarrow>
          (case text_generation w of
             Raised \<Rightarrow> (Raised, [GenerateFromText])
           | Returned reply \<Rightarrow>
               (Returned (analyzer_parse_gemini_output reply), [GenerateFromText])))"

text \<open>
  \<open>analyze_transcript_data\<close> of auto\_scraper.py reads a prompt file after the loop and
  returns the text of the reply:
  \<^verbatim>\<open>
  with open('youtube/summarization/script_prompt.md', 'r') as f:
      prompt = f.read()
  prompt = prompt.replace("{{TRANSCRIPT}}", full_text)
  response = model.generate_content(prompt)
  return response.text
  \<close>
\<close>

definition auto_analyze_transcript_data ::
  "world \<Rightarrow> TranscriptSegment list \<Rightarrow> ustr outcome \<times> event list" where
  "auto_analyze_transcript_data w segments =
     (case format_transcript segments of
        Inl e \<Rightarrow> (Raised, [])
      | Inr full_text \<Rightarrow>
          if \<not> prompt_files_readable w then (Raised, [])
          else (case text_generation w of
                  Raised \<Rightarrow> (Raised, [GenerateFromText])
                | Returned reply \<Rightarrow> (Returned reply, [GenerateFromText])))"

subsection \<open>Analysis of the audio\<close>

text \<open>
  \<open>analyze_audio\<close> of agent\_scraper.py:
  \<^verbatim>\<open>
  audio_file = genai.upload_file(path=audio_path)
  while audio_file.state.name == "PROCESSING":
      logger.info('.', end='', flush=True)
      time.sleep(1)
      audio_file = genai.get_file(audio_file.name)
  ...
  response = model.generate_content([prompt, audio_file])
  return parse_gemini_output(response.text)
  \<close>
  \<open>Logger.info\<close> takes no keyword \<open>end\<close> or \<open>flush\<close>: with the level \<open>INFO\<close> that the
  module sets, the first statement of the loop body raises \<open>TypeError\<close>, so a file in the
  state \<open>PROCESSING\<close> makes this function raise before \<open>get_file\<close> is called.
\<close>

definition agent_analyze_audio :: "world \<Rightarrow> VideoAnalysis outcome \<times> event list" where
  "agent_analyze_audio w =
     (case upload_result w of
        Raised \<Rightarrow> (Raised, [UploadFile])
      | Returned st \<Rightarrow>
          if st = PROCESSING then (Raised, [UploadFile])
          else (case audio_generation w of
                  Raised \<Rightarrow> (Raised, [UploadFile, GenerateFromAudio])
                | Returned reply \<Rightarrow>
                    (Returned (parse_gemini_output reply), [UploadFile, GenerateFromAudio])))"

text \<open>
  \<open>GeminiAnalyzer.analyze_audio\<close> of analyzer.py:
  \<^verbatim>\<open>
  try:
      audio_file = genai.upload_file(path=audio_path)
      while audio_file.state.name == "PROCESSING":
          logger.debug("Waiting for audio file to process...")
          time.sleep(5)
          audio_file = genai.get_file(audio_file.name)
      ...
      response = self.model.generate_content([prompt, audio_file])
      return self._parse_gemini_output(response.text)
  except Exception as e:
      logger.error(...)
      raise
  finally:
      if 'audio_file' in locals() and audio_file.state.name != "FAILED":
          genai.delete_file(audio_file.name)
  \<close>
  When \<open>get_file\<close> raises, \<open>audio_file\<close> is still the file last obtained, in the state
  \<open>PROCESSING\<close>, and the \<open>finally\<close> block deletes it. An exception of \<open>delete_file\<close>
  replaces the result.
\<close>

definition analyzer_analyze_audio ::
  "world \<Rightarrow> (VideoAnalysis outcome \<times> event list) option" where
  "analyzer_analyze_audio w =
     (case upload_result w of
        Raised \<Rightarrow> Some (Raised, [UploadFile])
      | Returned st0 \<Rightarrow>
          (case poll_file (get_file_result w) 0 st0 of
             None \<Rightarrow> None
           | Some (Raised, n) \<Rightarrow>
               Some (Raised, UploadFile # replicate n GetFile @ [DeleteRemoteFile])
           | Some (Returned st, n) \<Rightarrow>
               (let result =
                      (case audio_generation w of
                         Raised \<Rightarrow> Raised
                       | Returned reply \<Rightarrow> Returned (analyzer_parse_gemini_output reply));
                    events = UploadFile # replicate n GetFile @ [GenerateFromAudio]
                in if st \<noteq> FAILED then
                     Some (if delete_file_raises w then Raised else result,
                           events @ [DeleteRemoteFile])
                   else Some (result, events))))"

text \<open>
  \<open>analyze_audio\<close> of auto\_scraper.py:
  \<^verbatim>\<open>
  audio_file = genai.upload_file(path=audio_path, display_name=audio_path)
  while audio_file.state.name == "PROCESSING":
      print('.', end='', flush=True)
      time.sleep(2)
      audio_file = genai.get_file(audio_file.name)
  if audio_file.state.name == "FAILED":
      raise ValueError(...)
  with open('youtube/summarization/repo_prompt.md', 'r') as f:
      prompt = f.read()
  response = model.generate_content([prompt, audio_file])
  genai.delete_file(audio_file.name)
  return response.text
  \<close>
\<close>

definition auto_analyze_audio :: "world \<Rightarrow> (ustr outcome \<times> event list) option" where
  "auto_analyze_audio w =
     (case upload_result w of
        Raised \<Rightarrow> Some (Raised, [UploadFile])
      | Returned st0 \<Rightarrow>
          (case poll_file (get_file_result w) 0 st0 of
             None \<Rightarrow> None
           | Some (Raised, n) \<Rightarrow> Some (Raised, UploadFile # replicate n GetFile)
           | Some (Returned st, n) \<Rightarrow>
               (let events = UploadFile # replicate n GetFile
                in if st = FAILED then Some (Raised, events)
                   else if \<not> prompt_files_readable w then Some (Raised, events)
                   else (case audio_generation w of
                           Raised \<Rightarrow> Some (Raised, events @ [GenerateFromAudio])
                         | Returned reply \<Rightarrow>
                             Some (if delete_file_raises w then Raised else Returned reply,
                                   events @ [GenerateFromAudio, DeleteRemoteFile])))))"

section \<open>The orchestrators\<close>

text \<open>
  The result of a run: what was produced (nothing on failure), the files that exist at
  the end, and the calls made.
\<close>

type_synonym 'a run = "'a option \<times> path set \<times> event list"

subsection \<open>\<open>run_agent\<close> of agent\_scraper.py\<close>

text \<open>
  \<^verbatim>\<open>
  def run_agent(youtube_url) -> VideoAnalysis | None:
      video_id = get_video_id(youtube_url)
      if not video_id:
          return None
      try:
          transcript_api_instance = YouTubeTranscriptApi()
          transcript_data = transcript_api_instance.fetch(video_id)
          analysis = analyze_transcript_data(transcript_data)
          return analysis
      except Exception as e:
          logger.warning(...)
      try:
          audio_file = download_audio(youtube_url)
          if audio_file and os.path.exists(audio_file):
              analysis = analyze_audio(audio_file)
              os.remove(audio_file)
              return analysis
          else:
              return None
      except Exception as e:
          return None
  \<close>
\<close>

definition agent_plan_a :: "world \<Rightarrow> VideoAnalysis outcome \<times> event list" where
  "agent_plan_a w =
     (case fetch_result w of
        Raised \<Rightarrow> (Raised, [FetchTranscript])
      | Returned transcript_data \<Rightarrow>
          (case agent_analyze_transcript_data w transcript_data of
             (r, es) \<Rightarrow> (r, FetchTranscript # es)))"

definition agent_plan_b :: "world \<Rightarrow> VideoAnalysis run" where
  "agent_plan_b w =
     (let audio_file = download_audio w; files = files_after_download w
      in case audio_file of
           None \<Rightarrow> (None, files, [DownloadAudio])
         | Some p \<Rightarrow>
             if p \<noteq> [] \<and> p \<in> files then
               (case agent_analyze_audio w of
                  (Returned analysis, es) \<Rightarrow>
                    (Some analysis, files - {p}, DownloadAudio # es @ [RemoveLocalFile p])
                | (Raised, es) \<Rightarrow> (None, files, DownloadAudio # es))
             else (None, files, [DownloadAudio]))"

definition agent_run_agent :: "world \<Rightarrow> ustr \<Rightarrow> VideoAnalysis run" where
  "agent_run_agent w youtube_url =
     (if no_video_id (get_video_id youtube_url) then (None, files_before w, [])
      else (case agent_plan_a w of
              (Returned analysis, es) \<Rightarrow> (Some analysis, files_before w, es)
            | (Raised, es) \<Rightarrow>
                (case agent_plan_b w of (r, files, es') \<Rightarrow> (r, files, es @ es'))))"

subsection \<open>\<open>run_agent\<close> of auto\_scraper.py\<close>

text \<open>
  \<^verbatim>\<open>
  def run_agent(youtube_url):
      video_id = get_video_id(youtube_url)
      if not video_id:
          return
      try:
          transcript_list = YouTubeTranscriptApi.get_transcript(video_id)
          summary = analyze_transcript_data(transcript_list)
          print(summary)
          return
      except (TranscriptsDisabled, NoTranscriptFound) as e:
          print(...)
      except Exception as e:
          print(...)
      try:
          audio_file = download_audio(youtube_url)
          if audio_file and os.path.exists(audio_file):
              try:
                  summary = analyze_audio(audio_file)
                  print(summary)
              finally:
                  os.remove(audio_file)
          else:
              print(...)
      except Exception as e:
          print(...)
  \<close>
  The summary that is printed is what the run produces. A run that waits for the
  uploaded file without end has no result.
\<close>

definition auto_plan_a :: "world \<Rightarrow> ustr outcome \<times> event list" where
  "auto_plan_a w =
     (case fetch_result w of
        Raised \<Rightarrow> (Raised, [FetchTranscript])
      | Returned transcript_list \<Rightarrow>
          (case auto_analyze_transcript_data w transcript_list of
             (r, es) \<Rightarrow> (r, FetchTranscript # es)))"

definition auto_plan_b :: "world \<Rightarrow> ustr run option" where
  "auto_plan_b w =
     (let audio_file = download_audio w; files = files_after_download w
      in case audio_file of
           None \<Rightarrow> Some (None, files, [DownloadAudio])
         | Some p \<Rightarrow>
             if p \<noteq> [] \<and> p \<in> files then
               (case auto_analyze_audio w of
                  None \<Rightarrow> None
                | Some (Returned summary, es) \<Rightarrow>
                    Some (Some summary, files - {p}, DownloadAudio # es @ [RemoveLocalFile p])
                | Some (Raised, es) \<Rightarrow>
                    Some (None, files - {p}, DownloadAudio # es @ [RemoveLocalFile p]))
             else Some (None, files, [DownloadAudio]))"

definition auto_run_agent :: "world \<Rightarrow> ustr \<Rightarrow> ustr run option" where
  "auto_run_agent w youtube_url =
     (if no_video_id (get_video_id youtube_url) then Some (None, files_before w, [])
      else (case auto_plan_a w of
              (Returned summary, es) \<Rightarrow> Some (Some summary, files_before w, es)
            | (Raised, es) \<Rightarrow>
                map_option (\<lambda>(r, files, es'). (r, files, es @ es')) (auto_plan_b w)))"

subsection \<open>\<open>main\<close> of main.py\<close>

text \<open>
  \<^verbatim>\<open>
  video_id = scraper.get_video_id(args.youtube_url)
  if not video_id:
      return
  video_analysis_result = None
  audio_file_path = None
  try:
      transcript_segments = scraper.fetch_transcript(video_id)
      if transcript_segments:
          video_analysis_result = analyzer.analyze_transcript_data(transcript_segments)
      else:
          logger.warning(...)
  except Exception as e:
      logger.warning(...)
  if not video_analysis_result:
      try:
          with tempfile.NamedTemporaryFile(delete=False, suffix=".mp3") as tmp_audio_file:
              audio_file_path = tmp_audio_file.name
          downloaded_path = scraper.download_audio(args.youtube_url,
                                                   output_path=audio_file_path)
          if downloaded_path and os.path.exists(downloaded_path):
              video_analysis_result = analyzer.analyze_audio(downloaded_path)
          else:
              logger.error(...)
      except Exception as e:
          logger.error(...)
      finally:
          if audio_file_path and os.path.exists(audio_file_path):
              os.remove(audio_file_path)
  \<close>
  A \<open>VideoAnalysis\<close> object is always true in a condition. What the run produces is the
  final value of \<open>video_analysis_result\<close>.

  Modelled from the spec: the class \<open>VideoScraper\<close> (src/scraper.py) is not among the
  sources. Its \<open>get_video_id\<close> follows the rule of the specification, which is that of
  \<open>get_video_id\<close> above; \<open>fetch_transcript\<close> returns the segments, none when the
  transcript is unavailable, and \<open>download_audio\<close> returns the path it wrote or signals
  failure: these two are answers of the world.
\<close>

definition main_plan_a :: "world \<Rightarrow> VideoAnalysis option \<times> event list" where
  "main_plan_a w =
     (case fetch_result w of
        Raised \<Rightarrow> (None, [FetchTranscript])
      | Returned transcript_segments \<Rightarrow>
          if transcript_segments \<noteq> [] then
            (case analyzer_analyze_transcript_data w transcript_segments of
               (Returned analysis, es) \<Rightarrow> (Some analysis, FetchTranscript # es)
             | (Raised, es) \<Rightarrow> (None, FetchTranscript # es))
          else (None, [FetchTranscript]))"

text \<open>The \<open>try\<close> block of the second plan: the result and the calls.\<close>

definition main_try_audio ::
  "world \<Rightarrow> (VideoAnalysis option \<times> event list) option" where
  "main_try_audio w =
     (case scraper_download w of
        Raised \<Rightarrow> Some (None, [DownloadAudio])
      | Returned downloaded_path \<Rightarrow>
          (case downloaded_path of
             None \<Rightarrow> Some (None, [DownloadAudio])
           | Some p \<Rightarrow>
               if p \<noteq> [] \<and> p \<in> files_after_download w then
                 (case analyzer_analyze_audio w of
                    None \<Rightarrow> None
                  | Some (Returned analysis, es) \<Rightarrow> Some (Some analysis, DownloadAudio # es)
                  | Some (Raised, es) \<Rightarrow> Some (None, DownloadAudio # es))
               else Some (None, [DownloadAudio])))"

definition main_plan_b :: "world \<Rightarrow> VideoAnalysis run option" where
  "main_plan_b w =
     (case temp_file w of
        Raised \<Rightarrow> Some (None, files_before w, [])
      | Returned audio_file_path \<Rightarrow>
          (case main_try_audio w of
             None \<Rightarrow> None
           | Some (r, es) \<Rightarrow>
               if audio_file_path \<noteq> [] \<and> audio_file_path \<in> files_after_download w then
                 Some (r, files_after_download w - {audio_file_path},
                       es @ [RemoveLocalFile audio_file_path])
               else Some (r, files_after_download w, es)))"

definition main :: "world \<Rightarrow> ustr \<Rightarrow> VideoAnalysis run option" where
  "main w youtube_url =
     (if no_video_id (get_video_id youtube_url) then Some (None, files_before w, [])
      else (case main_plan_a w of
              (Some analysis, es) \<Rightarrow> Some (Some analysis, files_before w, es)
            | (None, es) \<Rightarrow>
                map_option (\<lambda>(r, files, es'). (r, files, es @ es')) (main_plan_b w)))"

subsection \<open>Worlds used as examples\<close>

definition example_url :: ustr where
  "example_url = ascii ''https://youtu.be/abc123?t=5''"

text \<open>Every service answers; the file named by the downloader exists afterwards.\<close>

definition calm_world :: world where
  "calm_world =
     \<lparr>fetch_result = Returned [\<lparr>start = Finite 0, segment_text = ascii ''hello''\<rparr>],
      text_generation = Returned template_reply,
      prompt_files_readable = True,
      download_raises = False,
      files_before = {},
      files_after_download = {ascii ''audio.mp3''},
      upload_result = Returned ACTIVE,
      get_file_result = (\<lambda>n. Returned ACTIVE),
      audio_generation = Returned template_reply,
      delete_file_raises = False,
      temp_file = Returned (ascii ''audio.mp3''),
      scraper_download = Returned (Some (ascii ''audio.mp3''))\<rparr>"

text \<open>No transcript, and the model call of the audio analysis raises.\<close>

definition failing_audio_world :: world where
  "failing_audio_world = calm_world\<lparr>fetch_result := Raised, audio_generation := Raised\<rparr>"

text \<open>The uploaded file is in the state \<open>FAILED\<close> at once.\<close>

definition failed_upload_world :: world where
  "failed_upload_world = calm_world\<lparr>upload_result := Returned FAILED\<rparr>"

section \<open>Properties of the timestamp codec\<close>

lemma dec_digits_nonempty: "dec_digits n \<noteq> []"
  by (subst dec_digits.simps) simp

lemma dec_digits_all_digits: "list_all is_ascii_digit (dec_digits n)"
proof (induction n rule: dec_digits.induct)
  case (1 n)
  show ?case
  proof (cases "n < 10")
    case True
    then show ?thesis
      by (subst dec_digits.simps) (simp add: is_ascii_digit_def)
  next
    case False
    have "n mod 10 < 10" by simp
    then have "is_ascii_digit (48 + n mod 10)"
      unfolding is_ascii_digit_def by linarith
    with False 1 show ?thesis
      by (subst dec_digits.simps) simp
  qed
qed

lemma digits_value_snoc: "digits_value (ds @ [d]) = 10 * digits_value ds + (d - 48)"
  by (simp add: digits_value_def)

lemma digits_value_dec_digits: "digits_value (dec_digits n) = n"
proof (induction n rule: dec_digits.induct)
  case (1 n)
  show ?case
  proof (cases "n < 10")
    case True
    then show ?thesis
      by (subst dec_digits.simps) (simp add: digits_value_def)
  next
    case False
    with 1 have "digits_value (dec_digits (n div 10)) = n div 10" by simp
    with False show ?thesis
      by (subst dec_digits.simps) (simp add: digits_value_snoc)
  qed
qed

lemma digits_value_zeros: "digits_value (replicate k 48 @ ds) = digits_value ds"
proof (induction k)
  case 0
  show ?case by simp
next
  case (Suc k)
  have "foldl (\<lambda>a d. 10 * a + (d - 48)) 0 (replicate k 48 @ ds) =
        foldl (\<lambda>a d. 10 * a + (d - 48)) 0 ds"
    using Suc by (simp add: digits_value_def)
  then show ?case by (simp add: digits_value_def)
qed

lemma read_field_fmt: "0 \<le> n \<Longrightarrow> read_field (fmt_02d n) = Some (nat n)"
proof -
  assume "0 \<le> n"
  let ?ds = "dec_digits (nat n)"
  let ?k = "2 - length ?ds"
  have "list_all is_ascii_digit (replicate ?k 48)"
    by (simp add: list_all_iff is_ascii_digit_def)
  then have "list_all is_ascii_digit (replicate ?k 48 @ ?ds)"
    using dec_digits_all_digits [of "nat n"] by simp
  moreover have "replicate ?k 48 @ ?ds \<noteq> []"
    using dec_digits_nonempty [of "nat n"] by simp
  ultimately have "read_field (replicate ?k 48 @ ?ds) = Some (nat n)"
    unfolding read_field_def
    by (simp only: digits_value_zeros digits_value_dec_digits simp_thms if_True)
  with \<open>0 \<le> n\<close> show ?thesis
    by (simp add: fmt_02d_def zero_pad_def)
qed

lemma fmt_no_colon: "0 \<le> n \<Longrightarrow> 58 \<notin> set (fmt_02d n)"
proof -
  assume "0 \<le> n"
  have "\<forall>c \<in> set (dec_digits (nat n)). is_ascii_digit c"
    using dec_digits_all_digits [of "nat n"] by (simp add: list_all_iff)
  then have "58 \<notin> set (dec_digits (nat n))"
    by (auto simp: is_ascii_digit_def)
  with \<open>0 \<le> n\<close> show ?thesis
    by (auto simp: fmt_02d_def zero_pad_def)
qed

lemma py_split_no_sep: "sep \<notin> set xs \<Longrightarrow> py_split sep xs = [xs]"
  by (induction xs) auto

lemma py_split_nonempty: "py_split sep xs \<noteq> []"
  by (induction xs) (auto split: list.splits)

lemma py_split_append:
  "sep \<notin> set xs \<Longrightarrow> py_split sep (xs @ sep # ys) = xs # py_split sep ys"
  by (induction xs) auto

lemma fields_mmss:
  assumes "0 \<le> m" "0 \<le> s"
  shows "map read_field (py_split 58 (fmt_02d m @ [58] @ fmt_02d s)) =
         [Some (nat m), Some (nat s)]"
  using assms
  by (simp add: py_split_append py_split_no_sep fmt_no_colon read_field_fmt)

lemma fields_hhmmss:
  assumes "0 \<le> h" "0 \<le> m" "0 \<le> s"
  shows "map read_field (py_split 58 (fmt_02d h @ [58] @ fmt_02d m @ [58] @ fmt_02d s)) =
         [Some (nat h), Some (nat m), Some (nat s)]"
  using assms
  by (simp add: py_split_append py_split_no_sep fmt_no_colon read_field_fmt)

lemma reparse_mmss:
  assumes "0 \<le> m" "0 \<le> s"
  shows "reparse_timestamp (fmt_02d m @ [58] @ fmt_02d s) = Some (m * 60 + s)"
  unfolding reparse_timestamp_def fields_mmss [OF assms]
  using assms by simp

lemma reparse_hhmmss:
  assumes "0 \<le> h" "0 \<le> m" "0 \<le> s"
  shows "reparse_timestamp (fmt_02d h @ [58] @ fmt_02d m @ [58] @ fmt_02d s) =
         Some (h * 3600 + m * 60 + s)"
  unfolding reparse_timestamp_def fields_hhmmss [OF assms]
  using assms by simp

lemma hms_sum: "(t::int) div 60 div 60 * 3600 + t div 60 mod 60 * 60 + t mod 60 = t"
proof -
  have "t div 60 = (t div 60 div 60) * 60 + t div 60 mod 60" by simp
  moreover have "t = (t div 60) * 60 + t mod 60" by simp
  ultimately show ?thesis by linarith
qed

lemma format_hms_unfold:
  "format_hms t =
   (if t div 60 div 60 > 0
    then fmt_02d (t div 60 div 60) @ [58] @ fmt_02d (t div 60 mod 60) @ [58] @ fmt_02d (t mod 60)
    else fmt_02d (t div 60 mod 60) @ [58] @ fmt_02d (t mod 60))"
  unfolding format_hms_def Let_def by (rule refl)

lemma reparse_format_hms:
  assumes t0: "0 \<le> t"
  shows "reparse_timestamp (format_hms t) = Some t"
proof -
  have m0: "0 \<le> t div 60 mod 60" and s0: "0 \<le> t mod 60"
    by simp_all
  have h0: "0 \<le> t div 60 div 60"
    using t0 by (simp add: pos_imp_zdiv_nonneg_iff)
  show ?thesis
  proof (cases "t div 60 div 60 > 0")
    case True
    have "reparse_timestamp (format_hms t) =
          Some (t div 60 div 60 * 3600 + t div 60 mod 60 * 60 + t mod 60)"
      unfolding format_hms_unfold using True reparse_hhmmss [OF h0 m0 s0]
      by (simp only: if_True)
    then show ?thesis by (simp only: hms_sum)
  next
    case False
    with h0 have hz: "t div 60 div 60 = 0" by simp
    have "reparse_timestamp (format_hms t) = Some (t div 60 mod 60 * 60 + t mod 60)"
      unfolding format_hms_unfold using False reparse_mmss [OF m0 s0]
      by (simp only: if_False)
    moreover have "t div 60 mod 60 * 60 + t mod 60 = t"
      using hms_sum [of t] unfolding hz by simp
    ultimately show ?thesis by simp
  qed
qed

lemma format_timestamp_Finite: "format_timestamp (Finite x) = Inr (format_hms (py_trunc x))"
  by (simp add: format_timestamp_def py_int_def)

lemma format_timestamp_not_finite:
  "format_timestamp PosInf = Inl OverflowError" "format_timestamp NegInf = Inl OverflowError"
  "format_timestamp NaN = Inl ValueError"
  by (simp_all add: format_timestamp_def py_int_def)

lemma fmt_02d_small:
  "fmt_02d 0 = ascii ''00''" "fmt_02d 1 = ascii ''01''" "fmt_02d 5 = ascii ''05''"
  "fmt_02d 55 = ascii ''55''" "fmt_02d 59 = ascii ''59''"
  by (simp_all add: fmt_02d_def zero_pad_def dec_digits.simps ascii_def)

lemma format_65: "format_timestamp (Finite 65) = Inr (ascii ''01:05'')"
  by (simp add: format_timestamp_Finite py_trunc_def format_hms_def Let_def fmt_02d_small)
    (simp add: ascii_def)

lemma format_3661: "format_timestamp (Finite 3661) = Inr (ascii ''01:01:01'')"
  by (simp add: format_timestamp_Finite py_trunc_def format_hms_def Let_def fmt_02d_small)
    (simp add: ascii_def)

lemma format_0: "format_timestamp (Finite 0) = Inr (ascii ''00:00'')"
  by (simp add: format_timestamp_Finite py_trunc_def format_hms_def Let_def fmt_02d_small)
    (simp add: ascii_def)

lemma format_minus_5: "format_timestamp (Finite (- 5)) = Inr (ascii ''59:55'')"
  by (simp add: format_timestamp_Finite py_trunc_def format_hms_def Let_def fmt_02d_small)
    (simp add: ascii_def)

lemma hour_wrap:
  fixes t :: int
  shows "(t mod 3600) div 60 div 60 = 0" "(t mod 3600) div 60 mod 60 = t div 60 mod 60"
    "(t mod 3600) mod 60 = t mod 60"
proof -
  have a: "0 \<le> t mod 3600" "t mod 3600 < 3600" by simp_all
  then show "(t mod 3600) div 60 div 60 = 0"
    by (simp add: div_pos_pos_trivial zdiv_zmult2_eq)
  have "t mod 3600 = t mod (60 * 60)" by simp
  also have "\<dots> = 60 * (t div 60 mod 60) + t mod 60"
    by (rule zmod_zmult2_eq) simp
  finally have e: "t mod 3600 = 60 * (t div 60 mod 60) + t mod 60" .
  show "(t mod 3600) div 60 mod 60 = t div 60 mod 60"
    unfolding e by simp
  show "(t mod 3600) mod 60 = t mod 60"
    unfolding e by simp
qed

lemma format_hms_wraps:
  assumes "t \<le> 0"
  shows "format_hms t = format_hms (t mod 3600)"
proof -
  from assms have "t div 60 \<le> 0" by linarith
  then have "t div 60 div 60 \<le> 0" by linarith
  then have "\<not> 0 < t div 60 div 60" by simp
  then have "format_hms t = fmt_02d (t div 60 mod 60) @ [58] @ fmt_02d (t mod 60)"
    unfolding format_hms_unfold by (simp only: if_False)
  moreover have "format_hms (t mod 3600) =
                 fmt_02d (t div 60 mod 60) @ [58] @ fmt_02d (t mod 60)"
    unfolding format_hms_unfold [of "t mod 3600"] hour_wrap by simp
  ultimately show ?thesis by simp
qed

lemma py_trunc_of_int: "py_trunc (of_int k) = k"
  by (simp add: py_trunc_def)

lemma py_trunc_neg: "x < 0 \<Longrightarrow> py_trunc x \<le> 0"
  by (simp add: py_trunc_def ceiling_le_zero)

text \<open>
  Claim C9, as the code has it. For every finite non-negative input \<open>format_timestamp\<close>
  returns a string, and reading it back as H:M:S (three fields) or M:S (two fields) and
  counting the seconds gives the floor of the input; the outputs for 65, 3661 and 0 are
  "01:05", "01:01:01" and "00:00".
\<close>

theorem format_timestamp_roundtrip:
  assumes "0 \<le> x"
  shows "(\<exists>t. format_timestamp (Finite x) = Inr t \<and> reparse_timestamp t = Some \<lfloor>x\<rfloor>) \<and>
         format_timestamp (Finite 65) = Inr (ascii ''01:05'') \<and>
         format_timestamp (Finite 3661) = Inr (ascii ''01:01:01'') \<and>
         format_timestamp (Finite 0) = Inr (ascii ''00:00'')"
proof -
  from assms have t: "py_trunc x = \<lfloor>x\<rfloor>" and "0 \<le> \<lfloor>x\<rfloor>"
    by (simp_all add: py_trunc_def)
  then have "reparse_timestamp (format_hms (py_trunc x)) = Some \<lfloor>x\<rfloor>"
    using reparse_format_hms [of "\<lfloor>x\<rfloor>"] by simp
  then have "\<exists>t. format_timestamp (Finite x) = Inr t \<and> reparse_timestamp t = Some \<lfloor>x\<rfloor>"
    by (simp add: format_timestamp_Finite)
  with format_65 format_3661 format_0 show ?thesis by (simp only: simp_thms)
qed

theorem format_timestamp_roundtrip_witness:
  "(0::real) \<le> 131 / 2 \<and>
   (\<exists>t. format_timestamp (Finite (131 / 2)) = Inr t \<and> reparse_timestamp t = Some 65)"
  using format_timestamp_roundtrip [of "131 / 2"] by simp

text \<open>
  The claim as worded takes every non-negative float. Positive infinity is one, and on it
  the conversion \<open>int(seconds)\<close> raises \<open>OverflowError\<close>: nothing is returned that could
  be read back.
\<close>

theorem format_timestamp_infinity:
  "py_nonneg PosInf \<and> format_timestamp PosInf = Inl OverflowError"
  by (simp add: py_nonneg_def format_timestamp_not_finite)

text \<open>
  Claim C10, as the code has it. A finite negative input is neither refused nor clamped:
  \<open>format_timestamp\<close> returns a string, the truncated input wrapped modulo the hour.
  The output for a negative \<open>x\<close> is the output for the non-negative number of seconds
  \<open>int(x) mod 3600\<close>, so it reads back as that number and not as the input;
  \<open>format_timestamp(-5)\<close> is "59:55", which reads back as 3595 seconds.
\<close>

theorem format_timestamp_negative_wraps:
  assumes "x < 0"
  shows "format_timestamp (Finite x) =
           format_timestamp (Finite (of_int (py_trunc x mod 3600))) \<and>
         (\<exists>t. format_timestamp (Finite x) = Inr t \<and>
              reparse_timestamp t = Some (py_trunc x mod 3600)) \<and>
         format_timestamp (Finite (- 5)) = Inr (ascii ''59:55'') \<and>
         reparse_timestamp (ascii ''59:55'') = Some 3595"
proof -
  define u where "u = py_trunc x mod 3600"
  have u0: "0 \<le> u" by (simp add: u_def)
  have w: "format_hms (py_trunc x) = format_hms u"
    unfolding u_def by (rule format_hms_wraps [OF py_trunc_neg [OF assms]])
  then have same: "format_timestamp (Finite x) = format_timestamp (Finite (of_int u))"
    by (simp add: format_timestamp_Finite py_trunc_of_int)
  have rd: "\<exists>t. format_timestamp (Finite x) = Inr t \<and> reparse_timestamp t = Some u"
    using reparse_format_hms [OF u0] w by (simp add: format_timestamp_Finite)
  have "format_hms (- 5) = format_hms 3595"
    using format_hms_wraps [of "- 5"] by simp
  moreover have "format_hms (- 5) = ascii ''59:55''"
    using format_minus_5 by (simp add: format_timestamp_Finite py_trunc_def)
  ultimately have "reparse_timestamp (ascii ''59:55'') = Some 3595"
    using reparse_format_hms [of 3595] by simp
  with same rd format_minus_5 show ?thesis
    unfolding u_def by (simp only: simp_thms)
qed

theorem format_timestamp_negative_wraps_witness:
  "(- 3605 :: real) < 0 \<and>
   format_timestamp (Finite (- 3605)) = format_timestamp (Finite 3595) \<and>
   (\<exists>t. format_timestamp (Finite (- 3605)) = Inr t \<and> reparse_timestamp t = Some 3595)"
proof -
  have h: "(- 3605 :: real) < 0" by simp
  have m: "py_trunc (- 3605) mod 3600 = 3595" by (simp add: py_trunc_def)
  from format_timestamp_negative_wraps [OF h, unfolded m of_int_numeral] h
  show ?thesis by blast
qed

text \<open>
  The claim as worded takes every negative input. Negative infinity is one, and on it
  the conversion \<open>int(seconds)\<close> raises \<open>OverflowError\<close>.
\<close>

theorem format_timestamp_negative_infinity:
  "py_negative NegInf \<and> format_timestamp NegInf = Inl OverflowError"
  by (simp add: py_negative_def format_timestamp_not_finite)


section \<open>Properties of the output parser\<close>

subsection \<open>Evaluating the patterns\<close>

lemmas char_class_defs = is_space_def ci_char_def lower_ascii_def skip_spaces_def
  rest_of_line_def

lemmas heading_defs = ascii_def summary_heading_def topics_heading_def

lemma is_decimal_0123: "is_decimal 48" "is_decimal 49" "is_decimal 50" "is_decimal 51"
  by (simp_all add: is_decimal_def nd_ranges_def)

lemmas bullet_defs = bullet_re_match_def re_mmss_def re_colon_ss_def re_digits2_def
  bullet_tail_def is_decimal_0123

lemma template_title: "extract_title template_reply = ascii ''Intro to Go''"
  by (simp add: template_reply_def extract_title_def title_re_at_def heading_defs
      py_strip_def char_class_defs)

lemma template_summary:
  "extract_summary template_reply =
   ascii ''Go is a small language. This video shows the basics.''"
  by (simp add: template_reply_def extract_summary_def summary_re_at_def
      summary_heading_at_def topics_lookahead_def heading_defs py_strip_def char_class_defs)

lemma template_topics:
  "extract_key_topics template_reply =
     [\<lparr>timestamp = ascii ''00:10'', topic = ascii ''Setup''\<rparr>,
      \<lparr>timestamp = ascii ''01:02:03'', topic = ascii ''Wrap-up''\<rparr>]"
  by (simp add: template_reply_def extract_key_topics_def topics_re_at_def bullet_defs
      heading_defs py_strip_def char_class_defs)

text \<open>
  The reply with the paragraph "Go is a small language. This video shows the basics.",
  evaluated.
\<close>

lemma parse_template_reply:
  "parse_gemini_output template_reply =
     \<lparr>title = ascii ''Intro to Go'',
      executive_summary = ascii ''Go is a small language. This video shows the basics.'',
      key_topics = [\<lparr>timestamp = ascii ''00:10'', topic = ascii ''Setup''\<rparr>,
                    \<lparr>timestamp = ascii ''01:02:03'', topic = ascii ''Wrap-up''\<rparr>]\<rparr> \<and>
   analyzer_parse_gemini_output template_reply =
     \<lparr>title = ascii ''Intro to Go'',
      executive_summary = ascii ''Go is a small language. This video shows the basics.'',
      key_topics = [\<lparr>timestamp = ascii ''00:10'', topic = ascii ''Setup''\<rparr>,
                    \<lparr>timestamp = ascii ''01:02:03'', topic = ascii ''Wrap-up''\<rparr>]\<rparr>"
  unfolding parse_gemini_output_def analyzer_parse_gemini_output_def Let_def
    template_title template_summary template_topics
  by (simp add: title_from_first_line_def title_from_first_sentence_def
      title_from_summary_def ascii_def)

lemma ci_char_hash: "ci_char 35 c \<longleftrightarrow> c = 35"
  by (auto simp: ci_char_def lower_ascii_def)

lemma ci_char_lf: "ci_char 10 c \<longleftrightarrow> c = 10"
  by (auto simp: ci_char_def lower_ascii_def)

lemma topics_re_at_no_hash: "c \<noteq> 35 \<Longrightarrow> topics_re_at (c # cs) = None"
  by (simp add: topics_re_at_def ascii_def ci_char_hash)

lemma re_search_topics_skip:
  "35 \<notin> set P \<Longrightarrow> re_search topics_re_at (P @ rest) = re_search topics_re_at rest"
  by (induction P) (simp_all add: topics_re_at_no_hash)

lemma topics_lookahead_no_lf: "c \<noteq> 10 \<Longrightarrow> \<not> topics_lookahead (c # cs)"
  by (simp add: topics_lookahead_def ci_char_lf)

lemma lazy_until_topics_skip:
  "10 \<notin> set P \<Longrightarrow>
   lazy_until topics_lookahead (P @ rest) = P @ lazy_until topics_lookahead rest"
  by (induction P) (simp_all add: topics_lookahead_no_lf)

lemma template_with_title: "extract_title (template_with P) = ascii ''Intro to Go''"
  by (simp add: template_with_def extract_title_def title_re_at_def heading_defs
      py_strip_def char_class_defs)

lemma template_with_summary:
  assumes "10 \<notin> set P"
  shows "extract_summary (template_with P) = py_strip P"
proof -
  have "re_search summary_re_at (template_with P) = Some P"
    by (simp add: template_with_def summary_re_at_def summary_heading_at_def heading_defs
        char_class_defs lazy_until_topics_skip [OF assms] topics_lookahead_def)
  then show ?thesis by (simp add: extract_summary_def)
qed

lemma template_with_topics:
  assumes "35 \<notin> set P"
  shows "extract_key_topics (template_with P) =
     [\<lparr>timestamp = ascii ''00:10'', topic = ascii ''Setup''\<rparr>,
      \<lparr>timestamp = ascii ''01:02:03'', topic = ascii ''Wrap-up''\<rparr>]"
proof -
  have "re_search topics_re_at (template_with P) =
        Some (ascii ''- **[00:10]** Setup'' @ [10] @ ascii ''- **[01:02:03]** Wrap-up'')"
    by (simp add: template_with_def topics_re_at_def heading_defs char_class_defs
        re_search_topics_skip [OF assms])
  then show ?thesis
    by (simp add: extract_key_topics_def bullet_defs ascii_def py_strip_def char_class_defs)
qed

text \<open>
  Claim C2. On a reply that follows the template, with the title line
  \<open>## Title: Intro to Go\<close>, the executive-summary heading followed by a paragraph (one
  line of any text without \<open>#\<close>), an empty line, and the key-topics heading followed
  by the bullets \<open>- **[00:10]** Setup\<close> and \<open>- **[01:02:03]** Wrap-up\<close>, both copies
  of the parser return the title "Intro to Go", the paragraph trimmed, and exactly the
  two key topics, in that order.
\<close>

theorem parse_template:
  assumes "10 \<notin> set paragraph" and "35 \<notin> set paragraph"
  shows "parse_gemini_output (template_with paragraph) =
     \<lparr>title = ascii ''Intro to Go'',
      executive_summary = py_strip paragraph,
      key_topics = [\<lparr>timestamp = ascii ''00:10'', topic = ascii ''Setup''\<rparr>,
                    \<lparr>timestamp = ascii ''01:02:03'', topic = ascii ''Wrap-up''\<rparr>]\<rparr> \<and>
   analyzer_parse_gemini_output (template_with paragraph) =
     \<lparr>title = ascii ''Intro to Go'',
      executive_summary = py_strip paragraph,
      key_topics = [\<lparr>timestamp = ascii ''00:10'', topic = ascii ''Setup''\<rparr>,
                    \<lparr>timestamp = ascii ''01:02:03'', topic = ascii ''Wrap-up''\<rparr>]\<rparr>"
  unfolding parse_gemini_output_def analyzer_parse_gemini_output_def Let_def
    template_with_title template_with_summary [OF assms(1)] template_with_topics [OF assms(2)]
  by (simp add: title_from_first_line_def title_from_first_sentence_def
      title_from_summary_def ascii_def)

theorem parse_template_witness:
  "parse_gemini_output (template_with (ascii ''  Go is small. It is fast.  '')) =
     \<lparr>title = ascii ''Intro to Go'',
      executive_summary = ascii ''Go is small. It is fast.'',
      key_topics = [\<lparr>timestamp = ascii ''00:10'', topic = ascii ''Setup''\<rparr>,
                    \<lparr>timestamp = ascii ''01:02:03'', topic = ascii ''Wrap-up''\<rparr>]\<rparr>"
proof -
  let ?P = "ascii ''  Go is small. It is fast.  ''"
  have a: "10 \<notin> set ?P" by (simp add: ascii_def)
  have b: "35 \<notin> set ?P" by (simp add: ascii_def)
  have c: "py_strip ?P = ascii ''Go is small. It is fast.''"
    by (simp add: py_strip_def ascii_def is_space_def)
  from parse_template [OF a b] show ?thesis unfolding c by blast
qed

subsection \<open>Where the matches lie in the text\<close>

lemma re_search_SomeD:
  "re_search m s = Some g \<Longrightarrow> \<exists>pre suf. s = pre @ suf \<and> m suf = Some g"
proof (induction s)
  case Nil
  then show ?case by simp
next
  case (Cons c cs)
  show ?case
  proof (cases "m (c # cs)")
    case None
    with Cons.prems have "re_search m cs = Some g" by simp
    from Cons.IH [OF this] obtain pre suf where "cs = pre @ suf" "m suf = Some g" by blast
    then have "c # cs = (c # pre) @ suf \<and> m suf = Some g" by simp
    then show ?thesis by blast
  next
    case (Some a)
    with Cons.prems have "m (c # cs) = Some g" by simp
    then have "c # cs = [] @ (c # cs) \<and> m (c # cs) = Some g" by simp
    then show ?thesis by blast
  qed
qed

lemma lit_ci_snoc_lf:
  "lit_ci (p @ [10]) s = Some r \<Longrightarrow> \<exists>h. s = h @ 10 # r"
proof (induction p arbitrary: s)
  case Nil
  then show ?case
    by (cases s) (auto simp: ci_char_def lower_ascii_def split: if_splits)
next
  case (Cons a p)
  then show ?case
  proof (cases s)
    case Nil
    with Cons.prems show ?thesis by simp
  next
    case (Cons c cs)
    with Cons.prems have "lit_ci (p @ [10]) cs = Some r" by (simp split: if_splits)
    from Cons.IH [OF this] obtain h where "cs = h @ 10 # r" by blast
    with Cons have "s = (c # h) @ 10 # r" by simp
    then show ?thesis by blast
  qed
qed

lemma lit_ci_suffix: "lit_ci p s = Some r \<Longrightarrow> \<exists>h. s = h @ r"
proof (induction p s rule: lit_ci.induct)
  case (1 s)
  then show ?case by simp
next
  case (2 p ps)
  then show ?case by simp
next
  case (3 p ps c cs)
  then have "lit_ci ps cs = Some r" by (simp split: if_splits)
  with 3 obtain h where "cs = h @ r" by (auto split: if_splits)
  then have "c # cs = (c # h) @ r" by simp
  then show ?case by blast
qed

lemma skip_spaces_suffix: "\<exists>h. s = h @ skip_spaces s"
  unfolding skip_spaces_def by (metis takeWhile_dropWhile_id)

lemma topics_re_at_SomeD:
  assumes "topics_re_at s = Some r"
  shows "\<exists>h. s = h @ 10 # r"
proof -
  from assms obtain r1 where r1: "lit_ci (ascii ''##'') s = Some r1"
    and r2: "lit_ci (topics_heading @ [10]) (skip_spaces r1) = Some r"
    by (auto simp: topics_re_at_def split: option.splits)
  from lit_ci_suffix [OF r1] obtain h1 where "s = h1 @ r1" by blast
  moreover from skip_spaces_suffix obtain h2 where "r1 = h2 @ skip_spaces r1" by blast
  moreover from lit_ci_snoc_lf [OF r2] obtain h3 where "skip_spaces r1 = h3 @ 10 # r" by blast
  ultimately have "s = (h1 @ h2 @ h3) @ 10 # r" by simp
  then show ?thesis by blast
qed

lemma py_split_sep:
  "py_split sep (a @ sep # r) = py_split sep a @ py_split sep r"
proof (induction a)
  case Nil
  show ?case by simp
next
  case (Cons c a)
  show ?case
  proof (cases "c = sep")
    case True
    with Cons show ?thesis by simp
  next
    case False
    obtain l ls where "py_split sep a = l # ls"
      using py_split_nonempty [of sep a] by (cases "py_split sep a") auto
    with False Cons show ?thesis by simp
  qed
qed

lemma collect_key_topics_none:
  "\<forall>line \<in> set lines. bullet_re_match (py_strip line) = None \<Longrightarrow>
   collect_key_topics lines = []"
  by (induction lines) auto

lemma topics_lines_subset:
  assumes "re_search topics_re_at s = Some r"
  shows "set (py_split 10 r) \<subseteq> set (py_split 10 s)"
proof -
  from re_search_SomeD [OF assms] obtain pre suf where
    s: "s = pre @ suf" and m: "topics_re_at suf = Some r" by blast
  from topics_re_at_SomeD [OF m] obtain h where "suf = h @ 10 # r" by blast
  with s have "s = (pre @ h) @ 10 # r" by simp
  then have "py_split 10 s = py_split 10 (pre @ h) @ py_split 10 r"
    by (simp only: py_split_sep)
  then show ?thesis by simp
qed

lemma extract_key_topics_none:
  assumes "\<forall>line \<in> set (py_split 10 s). bullet_re_match (py_strip line) = None"
  shows "extract_key_topics s = []"
proof (cases "re_search topics_re_at s")
  case None
  then show ?thesis by (simp add: extract_key_topics_def)
next
  case (Some r)
  from topics_lines_subset [OF Some] assms
  have "\<forall>line \<in> set (py_split 10 r). bullet_re_match (py_strip line) = None" by blast
  from collect_key_topics_none [OF this] Some show ?thesis
    by (simp add: extract_key_topics_def)
qed

lemma key_topics_parse: "key_topics (parse_gemini_output s) = extract_key_topics s"
  "key_topics (analyzer_parse_gemini_output s) = extract_key_topics s"
  by (simp_all add: parse_gemini_output_def analyzer_parse_gemini_output_def Let_def)

lemma py_item0_split: "py_item0 (py_split sep s) = Inr (py_split_first sep s)"
  using py_split_nonempty [of sep s]
  by (cases "py_split sep s") (simp_all add: py_item0_def py_split_first_def)

lemma title_from_first_line_never_raises:
  "title_from_first_line_or_error s t = Inr (title_from_first_line s t)"
  by (simp add: title_from_first_line_or_error_def title_from_first_line_def py_item0_split
      split: option.splits)

lemma title_from_first_sentence_never_raises:
  "title_from_first_sentence_or_error summary t = Inr (title_from_first_sentence summary t)"
  by (simp add: title_from_first_sentence_or_error_def title_from_first_sentence_def
      py_item0_split Let_def)

lemma parse_never_raises:
  "parse_gemini_output_or_error s = Inr (parse_gemini_output s)"
  "analyzer_parse_gemini_output_or_error s = Inr (analyzer_parse_gemini_output s)"
  by (simp_all add: parse_gemini_output_or_error_def analyzer_parse_gemini_output_or_error_def
      parse_gemini_output_def analyzer_parse_gemini_output_def Let_def
      title_from_first_line_never_raises title_from_first_sentence_never_raises)

text \<open>
  Claim C1, as the code has it. On every string the two steps that could raise do not,
  so both parsers return a \<open>VideoAnalysis\<close>. When no line of the text, with the
  whitespace at its ends removed as the parser removes it before matching, matches the
  bullet pattern, the list of key topics is empty.
\<close>

theorem parse_never_raises_no_bullet_no_topics:
  "parse_gemini_output_or_error s = Inr (parse_gemini_output s) \<and>
   analyzer_parse_gemini_output_or_error s = Inr (analyzer_parse_gemini_output s) \<and>
   ((\<forall>line \<in> set (py_split 10 s). bullet_re_match (py_strip line) = None) \<longrightarrow>
      key_topics (parse_gemini_output s) = [] \<and>
      key_topics (analyzer_parse_gemini_output s) = [])"
  using extract_key_topics_none [of s] by (simp add: key_topics_parse parse_never_raises)

theorem parse_never_raises_no_bullet_no_topics_witness:
  "parse_gemini_output_or_error unmatched_reply = Inr (parse_gemini_output unmatched_reply) \<and>
   key_topics (parse_gemini_output unmatched_reply) = [] \<and>
   key_topics (analyzer_parse_gemini_output unmatched_reply) = [] \<and>
   key_topics (parse_gemini_output []) = []"
proof -
  have h: "\<forall>line \<in> set (py_split 10 unmatched_reply). bullet_re_match (py_strip line) = None"
    by (simp add: unmatched_reply_def heading_defs py_strip_def char_class_defs
        bullet_re_match_def)
  have e: "\<forall>line \<in> set (py_split 10 []). bullet_re_match (py_strip line) = None"
    by (simp add: py_strip_def bullet_re_match_def ascii_def)
  from parse_never_raises_no_bullet_no_topics [of unmatched_reply]
    parse_never_raises_no_bullet_no_topics [of "[]"] h e
  show ?thesis by blast
qed

text \<open>
  The claim as worded speaks of the lines of the input. In a reply whose bullet is
  indented no line, as it stands, matches the bullet pattern (the match is tried at the
  start of the line), and yet the parser, which trims each line first, returns a key
  topic.
\<close>

theorem raw_line_no_match_counterexample:
  "py_split 10 indented_bullet_reply =
     [ascii ''## '' @ topics_heading, ascii ''  - **[00:10]** Setup''] \<and>
   bullet_re_match (ascii ''## '' @ topics_heading) = None \<and>
   bullet_re_match (ascii ''  - **[00:10]** Setup'') = None \<and>
   key_topics (parse_gemini_output indented_bullet_reply) =
     [\<lparr>timestamp = ascii ''00:10'', topic = ascii ''Setup''\<rparr>] \<and>
   key_topics (analyzer_parse_gemini_output indented_bullet_reply) =
     [\<lparr>timestamp = ascii ''00:10'', topic = ascii ''Setup''\<rparr>]"
  by (simp add: key_topics_parse indented_bullet_reply_def extract_key_topics_def
      topics_re_at_def bullet_defs heading_defs py_strip_def char_class_defs)

subsection \<open>The key topics\<close>

lemma re_digits2_SomeD:
  "re_digits2 s = Some r \<Longrightarrow> \<exists>a b. s = a # b # r \<and> is_decimal a \<and> is_decimal b"
  by (auto simp: re_digits2_def split: list.splits if_splits)

lemma lit1_SomeD: "lit [p] s = Some r \<Longrightarrow> s = p # r"
  by (cases s) (auto split: if_splits)

lemma re_mmss_SomeD:
  assumes "re_mmss s = Some r"
  shows "\<exists>a b c d. s = a # b # 58 # c # d # r \<and> is_decimal a \<and> is_decimal b \<and>
           is_decimal c \<and> is_decimal d"
proof -
  from assms obtain r1 r2 where 1: "re_digits2 s = Some r1" and 2: "lit [58] r1 = Some r2"
    and 3: "re_digits2 r2 = Some r"
    by (auto simp: re_mmss_def split: option.splits)
  from re_digits2_SomeD [OF 1] re_digits2_SomeD [OF 3] lit1_SomeD [OF 2]
  show ?thesis by auto
qed

lemma re_colon_ss_SomeD:
  assumes "re_colon_ss s = Some r"
  shows "\<exists>a b. s = 58 # a # b # r \<and> is_decimal a \<and> is_decimal b"
proof -
  from assms obtain r1 where 1: "lit [58] s = Some r1" and 2: "re_digits2 r1 = Some r"
    by (auto simp: re_colon_ss_def split: option.splits)
  from re_digits2_SomeD [OF 2] lit1_SomeD [OF 1] show ?thesis by auto
qed

lemma py_strip_prefix: "\<exists>w. dropWhile is_space s = py_strip s @ w"
proof -
  let ?u = "dropWhile is_space s"
  have "rev (takeWhile is_space (rev ?u) @ dropWhile is_space (rev ?u)) = ?u"
    by (simp only: takeWhile_dropWhile_id rev_rev_ident)
  then have "rev (dropWhile is_space (rev ?u)) @ rev (takeWhile is_space (rev ?u)) = ?u"
    by (simp only: rev_append)
  then have "?u = py_strip s @ rev (takeWhile is_space (rev ?u))"
    by (simp only: py_strip_def)
  then show ?thesis by blast
qed

lemma py_strip_no_leading_space: "py_strip s = c # cs \<Longrightarrow> \<not> is_space c"
proof -
  assume a: "py_strip s = c # cs"
  from py_strip_prefix obtain w where "dropWhile is_space s = py_strip s @ w" by blast
  with a have "dropWhile is_space s = c # (cs @ w)" by simp
  then show ?thesis by (metis hd_dropWhile list.sel(1) list.distinct(1))
qed

lemma py_strip_idem: "py_strip (py_strip s) = py_strip s"
proof -
  have 1: "dropWhile is_space (py_strip s) = py_strip s"
  proof (cases "py_strip s")
    case Nil
    then show ?thesis by simp
  next
    case (Cons c cs)
    with py_strip_no_leading_space [OF Cons] show ?thesis by simp
  qed
  have "dropWhile is_space (rev (py_strip s)) = rev (py_strip s)"
    by (simp add: py_strip_def)
  with 1 show ?thesis by (simp add: py_strip_def [of "py_strip s"])
qed

lemma bullet_timestamp_shape:
  assumes "bullet_re_match line = Some (ts, g2)"
  shows "is_timestamp_shape ts"
proof -
  from assms obtain r0 r1 where r0: "lit (ascii ''- **['') line = Some r0"
    and r1: "re_mmss r0 = Some r1"
    and alt: "(case Option.bind (re_colon_ss r1) bullet_tail of
                 Some g \<Rightarrow> Some (take 8 r0, g)
               | None \<Rightarrow> map_option (\<lambda>g. (take 5 r0, g)) (bullet_tail r1)) = Some (ts, g2)"
    by (auto simp: bullet_re_match_def split: option.splits)
  from re_mmss_SomeD [OF r1] obtain a b c d where
    e0: "r0 = a # b # 58 # c # d # r1" and
    d: "is_decimal a" "is_decimal b" "is_decimal c" "is_decimal d" by blast
  show ?thesis
  proof (cases "Option.bind (re_colon_ss r1) bullet_tail")
    case None
    with alt have "ts = take 5 r0" by auto
    with e0 d show ?thesis by (simp add: is_timestamp_shape_def)
  next
    case (Some g)
    with alt have ts: "ts = take 8 r0" by simp
    from Some obtain r2 where "re_colon_ss r1 = Some r2"
      by (auto simp: bind_eq_Some_conv)
    from re_colon_ss_SomeD [OF this] obtain e f where
      "r1 = 58 # e # f # r2" "is_decimal e" "is_decimal f" by blast
    with ts e0 d show ?thesis by (simp add: is_timestamp_shape_def)
  qed
qed

lemma collect_key_topics_shape:
  "kt \<in> set (collect_key_topics lines) \<Longrightarrow>
   is_timestamp_shape (timestamp kt) \<and> py_strip (topic kt) = topic kt"
proof (induction lines)
  case Nil
  then show ?case by simp
next
  case (Cons line lines)
  show ?case
  proof (cases "bullet_re_match (py_strip line)")
    case None
    with Cons show ?thesis by simp
  next
    case (Some p)
    obtain ts g2 where p: "p = (ts, g2)" by (cases p)
    with Some Cons.prems have
      "kt = \<lparr>timestamp = ts, topic = py_strip g2\<rparr> \<or> kt \<in> set (collect_key_topics lines)"
      by simp
    then show ?thesis
    proof
      assume "kt = \<lparr>timestamp = ts, topic = py_strip g2\<rparr>"
      with bullet_timestamp_shape [OF Some [unfolded p]] show ?thesis
        by (simp add: py_strip_idem)
    next
      assume "kt \<in> set (collect_key_topics lines)"
      with Cons.IH show ?thesis by simp
    qed
  qed
qed

lemma extract_key_topics_shape:
  "kt \<in> set (extract_key_topics s) \<Longrightarrow>
   is_timestamp_shape (timestamp kt) \<and> py_strip (topic kt) = topic kt"
  by (auto simp: extract_key_topics_def split: option.splits dest: collect_key_topics_shape)

lemma lit_SomeD: "lit p s = Some r \<Longrightarrow> s = p @ r"
proof (induction p s rule: lit.induct)
  case (1 s)
  then show ?case by simp
next
  case (2 p ps)
  then show ?case by simp
next
  case (3 p ps c cs)
  then show ?case by (simp split: if_splits)
qed

lemma bullet_tail_SomeD:
  "bullet_tail s = Some g \<Longrightarrow>
   \<exists>rest. s = ascii '']**'' @ rest \<and> g = rest_of_line (skip_spaces rest)"
  by (auto simp: bullet_tail_def dest: lit_SomeD)

lemma bullet_re_match_SomeD:
  assumes "bullet_re_match line = Some (ts, g2)"
  shows "is_timestamp_shape ts \<and>
         (\<exists>rest. line = ascii ''- **['' @ ts @ ascii '']**'' @ rest \<and>
                 g2 = rest_of_line (skip_spaces rest))"
proof -
  from assms obtain r0 r1 where r0: "lit (ascii ''- **['') line = Some r0"
    and r1: "re_mmss r0 = Some r1"
    and alt: "(case Option.bind (re_colon_ss r1) bullet_tail of
                 Some g \<Rightarrow> Some (take 8 r0, g)
               | None \<Rightarrow> map_option (\<lambda>g. (take 5 r0, g)) (bullet_tail r1)) = Some (ts, g2)"
    by (auto simp: bullet_re_match_def split: option.splits)
  from lit_SomeD [OF r0] have l: "line = ascii ''- **['' @ r0" .
  from re_mmss_SomeD [OF r1] obtain a b c d where
    e0: "r0 = a # b # 58 # c # d # r1" and
    d: "is_decimal a" "is_decimal b" "is_decimal c" "is_decimal d" by blast
  show ?thesis
  proof (cases "Option.bind (re_colon_ss r1) bullet_tail")
    case None
    with alt have ts: "ts = take 5 r0" and t: "bullet_tail r1 = Some g2" by auto
    from bullet_tail_SomeD [OF t] obtain rest where
      "r1 = ascii '']**'' @ rest" "g2 = rest_of_line (skip_spaces rest)" by blast
    with ts e0 d l show ?thesis by (simp add: is_timestamp_shape_def)
  next
    case (Some g)
    with alt have ts: "ts = take 8 r0" and g: "g = g2" by simp_all
    from Some obtain r2 where c: "re_colon_ss r1 = Some r2" and t: "bullet_tail r2 = Some g"
      by (auto simp: bind_eq_Some_conv)
    from re_colon_ss_SomeD [OF c] obtain e f where
      e1: "r1 = 58 # e # f # r2" "is_decimal e" "is_decimal f" by blast
    from bullet_tail_SomeD [OF t] obtain rest where
      "r2 = ascii '']**'' @ rest" "g = rest_of_line (skip_spaces rest)" by blast
    with ts g e0 e1 d l show ?thesis by (simp add: is_timestamp_shape_def)
  qed
qed

lemma py_split_piece_no_sep: "l \<in> set (py_split sep s) \<Longrightarrow> sep \<notin> set l"
proof (induction s arbitrary: l)
  case Nil
  then show ?case by simp
next
  case (Cons c s)
  show ?case
  proof (cases "c = sep")
    case True
    with Cons show ?thesis by auto
  next
    case False
    obtain p ps where ps: "py_split sep s = p # ps"
      using py_split_nonempty [of sep s] by (cases "py_split sep s") auto
    with False Cons.prems have "l = c # p \<or> l \<in> set ps" by simp
    then show ?thesis
    proof
      assume "l = c # p"
      moreover have "sep \<notin> set p" using Cons.IH [of p] ps by simp
      ultimately show ?thesis using False by simp
    next
      assume "l \<in> set ps"
      then show ?thesis using Cons.IH [of l] ps by simp
    qed
  qed
qed

lemma set_py_strip: "set (py_strip s) \<subseteq> set s"
proof -
  have "set (py_strip s) = set (dropWhile is_space (rev (dropWhile is_space s)))"
    by (simp add: py_strip_def)
  also have "\<dots> \<subseteq> set (rev (dropWhile is_space s))" by (auto dest: set_dropWhileD)
  also have "\<dots> \<subseteq> set s" by (auto dest: set_dropWhileD)
  finally show ?thesis .
qed

lemma py_strip_skip_spaces: "py_strip (skip_spaces s) = py_strip s"
  by (simp add: py_strip_def skip_spaces_def)

lemma rest_of_line_no_lf: "10 \<notin> set s \<Longrightarrow> rest_of_line s = s"
  unfolding rest_of_line_def by (rule takeWhile_eq_all_conv [THEN iffD2]) auto

lemma collect_key_topics_from_line:
  assumes "kt \<in> set (collect_key_topics lines)" and "\<forall>l \<in> set lines. 10 \<notin> set l"
  shows "is_timestamp_shape (timestamp kt) \<and>
         (\<exists>line \<in> set lines. \<exists>rest.
            py_strip line = ascii ''- **['' @ timestamp kt @ ascii '']**'' @ rest \<and>
            topic kt = py_strip rest)"
  using assms
proof (induction lines)
  case Nil
  then show ?case by simp
next
  case (Cons line lines)
  show ?case
  proof (cases "bullet_re_match (py_strip line)")
    case None
    with Cons show ?thesis by simp
  next
    case (Some p)
    obtain ts g2 where p: "p = (ts, g2)" by (cases p)
    with Some Cons.prems have
      "kt = \<lparr>timestamp = ts, topic = py_strip g2\<rparr> \<or> kt \<in> set (collect_key_topics lines)"
      by simp
    then show ?thesis
    proof
      assume kt: "kt = \<lparr>timestamp = ts, topic = py_strip g2\<rparr>"
      from bullet_re_match_SomeD [OF Some [unfolded p]] obtain rest where
        sh: "is_timestamp_shape ts" and
        l: "py_strip line = ascii ''- **['' @ ts @ ascii '']**'' @ rest" and
        g: "g2 = rest_of_line (skip_spaces rest)" by blast
      from Cons.prems have "10 \<notin> set line" by simp
      with set_py_strip [of line] have "10 \<notin> set (py_strip line)" by blast
      with l have "10 \<notin> set rest" by simp
      then have "10 \<notin> set (skip_spaces rest)"
        by (auto simp: skip_spaces_def dest: set_dropWhileD)
      with g have "py_strip g2 = py_strip rest"
        by (simp add: rest_of_line_no_lf py_strip_skip_spaces)
      with kt sh l show ?thesis by auto
    next
      assume "kt \<in> set (collect_key_topics lines)"
      with Cons.IH Cons.prems show ?thesis by auto
    qed
  qed
qed

lemma extract_key_topics_from_line:
  assumes "kt \<in> set (extract_key_topics s)"
  shows "is_timestamp_shape (timestamp kt) \<and>
         (\<exists>line \<in> set (py_split 10 s). \<exists>rest.
            py_strip line = ascii ''- **['' @ timestamp kt @ ascii '']**'' @ rest \<and>
            topic kt = py_strip rest)"
proof -
  from assms obtain r where r: "re_search topics_re_at s = Some r"
    and kt: "kt \<in> set (collect_key_topics (py_split 10 r))"
    by (cases "re_search topics_re_at s") (auto simp: extract_key_topics_def)
  have "\<forall>l \<in> set (py_split 10 r). 10 \<notin> set l"
    using py_split_piece_no_sep by blast
  from collect_key_topics_from_line [OF kt this] topics_lines_subset [OF r]
  show ?thesis by blast
qed

text \<open>
  Claim C8, as the code has it. Every key topic that the parser produces has a timestamp
  of the shape \<open>\d{2}:\d{2}\<close> or \<open>\d{2}:\d{2}:\d{2}\<close>, and it comes from a line of the
  text that, trimmed, is \<open>- **[\<close>, that timestamp, \<open>]**\<close> and a rest: the topic is
  that rest, trimmed. The topic may be empty: nothing in the parser or in the record
  asks for a non-empty string.
\<close>

theorem key_topic_invariant:
  "\<forall>kt \<in> set (key_topics (parse_gemini_output s)) \<union>
           set (key_topics (analyzer_parse_gemini_output s)).
     is_timestamp_shape (timestamp kt) \<and>
     (\<exists>line \<in> set (py_split 10 s). \<exists>rest.
        py_strip line = ascii ''- **['' @ timestamp kt @ ascii '']**'' @ rest \<and>
        topic kt = py_strip rest) \<and>
     py_strip (topic kt) = topic kt"
proof
  fix kt
  assume "kt \<in> set (key_topics (parse_gemini_output s)) \<union>
               set (key_topics (analyzer_parse_gemini_output s))"
  then have m: "kt \<in> set (extract_key_topics s)" by (simp add: key_topics_parse)
  from extract_key_topics_from_line [OF m] extract_key_topics_shape [OF m]
  show "is_timestamp_shape (timestamp kt) \<and>
     (\<exists>line \<in> set (py_split 10 s). \<exists>rest.
        py_strip line = ascii ''- **['' @ timestamp kt @ ascii '']**'' @ rest \<and>
        topic kt = py_strip rest) \<and>
     py_strip (topic kt) = topic kt" by blast
qed

theorem key_topic_invariant_witness:
  "\<lparr>timestamp = ascii ''01:02:03'', topic = ascii ''Wrap-up''\<rparr>
     \<in> set (key_topics (parse_gemini_output template_reply)) \<union>
       set (key_topics (analyzer_parse_gemini_output template_reply)) \<and>
   is_timestamp_shape (ascii ''01:02:03'') \<and>
   (\<exists>line \<in> set (py_split 10 template_reply). \<exists>rest.
      py_strip line = ascii ''- **['' @ ascii ''01:02:03'' @ ascii '']**'' @ rest \<and>
      ascii ''Wrap-up'' = py_strip rest)"
proof -
  let ?kt = "\<lparr>timestamp = ascii ''01:02:03'', topic = ascii ''Wrap-up''\<rparr>"
  have m: "?kt \<in> set (key_topics (parse_gemini_output template_reply)) \<union>
             set (key_topics (analyzer_parse_gemini_output template_reply))"
    by (simp add: key_topics_parse template_topics)
  from key_topic_invariant [of template_reply] m
  have "is_timestamp_shape (timestamp ?kt) \<and>
     (\<exists>line \<in> set (py_split 10 template_reply). \<exists>rest.
        py_strip line = ascii ''- **['' @ timestamp ?kt @ ascii '']**'' @ rest \<and>
        topic ?kt = py_strip rest)"
    by blast
  with m show ?thesis by simp
qed


text \<open>
  The claim as worded asks for a non-empty topic; a bullet with nothing after the
  timestamp gives a key topic whose topic is the empty string.
\<close>

theorem key_topic_empty_topic:
  "key_topics (parse_gemini_output empty_topic_reply) =
     [\<lparr>timestamp = ascii ''00:10'', topic = []\<rparr>] \<and>
   key_topics (analyzer_parse_gemini_output empty_topic_reply) =
     [\<lparr>timestamp = ascii ''00:10'', topic = []\<rparr>]"
  by (simp add: key_topics_parse empty_topic_reply_def extract_key_topics_def topics_re_at_def
      bullet_defs heading_defs py_strip_def char_class_defs)

subsection \<open>The executive summary\<close>

lemma re_search_first:
  assumes "\<forall>i<length pre. m (drop i (pre @ suf)) = None" and "m suf = Some g"
  shows "re_search m (pre @ suf) = Some g"
  using assms(1)
proof (induction pre)
  case Nil
  from assms(2) show ?case by (cases suf) simp_all
next
  case (Cons c pre)
  from Cons.prems have "m (drop 0 ((c # pre) @ suf)) = None" by blast
  then have 0: "m (c # pre @ suf) = None" by simp
  have "\<forall>i<length pre. m (drop i (pre @ suf)) = None"
  proof (intro allI impI)
    fix i assume "i < length pre"
    then have "Suc i < length (c # pre)" by simp
    with Cons.prems have "m (drop (Suc i) ((c # pre) @ suf)) = None" by blast
    then show "m (drop i (pre @ suf)) = None" by simp
  qed
  from Cons.IH [OF this] 0 show ?case by simp
qed

lemma lazy_until_first:
  assumes "\<forall>j<length body. \<not> stop (drop j (body @ rest))" and "rest = [] \<or> stop rest"
  shows "lazy_until stop (body @ rest) = body"
  using assms(1)
proof (induction body)
  case Nil
  from assms(2) show ?case by (cases rest) auto
next
  case (Cons c body)
  from Cons.prems have "\<not> stop (drop 0 ((c # body) @ rest))" by blast
  then have 0: "\<not> stop (c # body @ rest)" by simp
  have "\<forall>j<length body. \<not> stop (drop j (body @ rest))"
  proof (intro allI impI)
    fix j assume "j < length body"
    then have "Suc j < length (c # body)" by simp
    with Cons.prems have "\<not> stop (drop (Suc j) ((c # body) @ rest))" by blast
    then show "\<not> stop (drop j (body @ rest))" by simp
  qed
  from Cons.IH [OF this] 0 show ?case by simp
qed

lemma extract_summary_first:
  assumes "\<forall>i<length pre. summary_heading_at (drop i (pre @ h @ body @ rest)) = None"
    and "summary_heading_at (h @ body @ rest) = Some (body @ rest)"
    and "\<forall>j<length body. \<not> topics_lookahead (drop j (body @ rest))"
    and "rest = [] \<or> topics_lookahead rest"
  shows "extract_summary (pre @ h @ body @ rest) = py_strip body"
proof -
  have 1: "\<forall>i<length pre. summary_re_at (drop i (pre @ h @ body @ rest)) = None"
    using assms(1) by (simp add: summary_re_at_def)
  have 2: "summary_re_at (h @ body @ rest) = Some body"
    using assms(2) lazy_until_first [OF assms(3) assms(4)] by (simp add: summary_re_at_def)
  from re_search_first [OF 1 2] show ?thesis by (simp add: extract_summary_def)
qed

lemma summary_parse: "executive_summary (parse_gemini_output s) = extract_summary s"
  "executive_summary (analyzer_parse_gemini_output s) = extract_summary s"
  by (simp_all add: parse_gemini_output_def analyzer_parse_gemini_output_def Let_def)

text \<open>
  Claim C4, as the code has it. The heading is the pattern \<open>##\s*\<close>, U+1F4DD, one
  space, "Executive Summary" and a line feed, letters in either case; the end of the
  summary is the pattern of two line feeds, \<open>##\s*\<close>, U+23F1 U+FE0F, one space and
  "Key Topics & Timestamps". When the text is \<open>pre @ h @ body @ rest\<close>, where the
  heading matches at no position inside \<open>pre\<close> and matches \<open>h\<close>, the end pattern
  matches at no position inside \<open>body\<close>, and \<open>rest\<close> is empty or starts with the end
  pattern, the executive summary is \<open>body\<close>, trimmed.
\<close>

theorem executive_summary_extraction:
  assumes "\<forall>i<length pre. summary_heading_at (drop i (pre @ h @ body @ rest)) = None"
    and "summary_heading_at (h @ body @ rest) = Some (body @ rest)"
    and "\<forall>j<length body. \<not> topics_lookahead (drop j (body @ rest))"
    and "rest = [] \<or> topics_lookahead rest"
  shows "executive_summary (parse_gemini_output (pre @ h @ body @ rest)) = py_strip body \<and>
         executive_summary (analyzer_parse_gemini_output (pre @ h @ body @ rest)) = py_strip body"
  using extract_summary_first [OF assms] by (simp add: summary_parse)

theorem executive_summary_extraction_witness:
  "summary_heading_at
     ((ascii ''## '' @ summary_heading @ [10]) @ ascii '' Hi. '' @
      ([10, 10] @ ascii ''##'' @ topics_heading)) =
     Some (ascii '' Hi. '' @ ([10, 10] @ ascii ''##'' @ topics_heading)) \<and>
   topics_lookahead ([10, 10] @ ascii ''##'' @ topics_heading) \<and>
   executive_summary
     (parse_gemini_output
        ([120, 10] @ (ascii ''## '' @ summary_heading @ [10]) @ ascii '' Hi. '' @
         ([10, 10] @ ascii ''##'' @ topics_heading))) = ascii ''Hi.''"
proof -
  let ?pre = "[120, 10::nat]"
  let ?h = "ascii ''## '' @ summary_heading @ [10]"
  let ?body = "ascii '' Hi. ''"
  let ?rest = "[10, 10] @ ascii ''##'' @ topics_heading"
  have 1: "\<forall>i<length ?pre. summary_heading_at (drop i (?pre @ ?h @ ?body @ ?rest)) = None"
    by (simp add: less_Suc_eq summary_heading_at_def heading_defs char_class_defs)
  have 2: "summary_heading_at (?h @ ?body @ ?rest) = Some (?body @ ?rest)"
    by (simp add: summary_heading_at_def heading_defs char_class_defs)
  have 3: "\<forall>j<length ?body. \<not> topics_lookahead (drop j (?body @ ?rest))"
    by (simp add: less_Suc_eq topics_lookahead_def heading_defs char_class_defs)
  have 4: "topics_lookahead ?rest"
    by (simp add: topics_lookahead_def heading_defs char_class_defs)
  have 5: "?rest = [] \<or> topics_lookahead ?rest" using 4 by simp
  have 6: "py_strip ?body = ascii ''Hi.''"
    by (simp add: py_strip_def ascii_def is_space_def)
  from executive_summary_extraction [OF 1 2 3 5] 2 4 6 show ?thesis by simp
qed

text \<open>
  The claim as worded takes any heading that contains "Executive Summary". A heading
  without U+1F4DD is not found, and the summary stays empty although text follows.
\<close>

theorem executive_summary_counterexample:
  "executive_summary (parse_gemini_output plain_heading_reply) = [] \<and>
   executive_summary (analyzer_parse_gemini_output plain_heading_reply) = [] \<and>
   executive_summary (parse_gemini_output plain_heading_reply) \<noteq> ascii ''Hello''"
  by (simp add: summary_parse plain_heading_reply_def extract_summary_def summary_re_at_def
      summary_heading_at_def heading_defs py_strip_def char_class_defs)

subsection \<open>The title\<close>

lemma py_split_first_eq: "py_split_first sep s = takeWhile (\<lambda>c. c \<noteq> sep) s"
proof (induction s)
  case Nil
  show ?case by (simp add: py_split_first_def)
next
  case (Cons c s)
  obtain l ls where "py_split sep s = l # ls"
    using py_split_nonempty [of sep s] by (cases "py_split sep s") auto
  with Cons show ?case by (simp add: py_split_first_def)
qed

lemma lit_marker: "lit (ascii ''##'') l \<noteq> None \<longleftrightarrow> starts_with_heading_marker l"
proof (cases l)
  case Nil
  then show ?thesis by (simp add: ascii_def starts_with_heading_marker_def)
next
  case (Cons a l')
  then show ?thesis
    by (cases l') (auto simp: ascii_def starts_with_heading_marker_def)
qed

lemma rest_of_first_line: "rest_of_line (first_line s) = first_line s"
  by (simp add: rest_of_line_def first_line_def)

lemma title_from_first_line_eq:
  "title_from_first_line s [] = title_fallback_a s"
  using lit_marker [of "first_line s"]
  by (simp add: title_from_first_line_def first_line_re_match_def py_split_first_eq
      title_fallback_a_def rest_of_first_line first_line_def [symmetric])

lemma title_from_first_sentence_eq:
  "title_from_first_sentence summary t =
     (if t \<noteq> [] then t
      else if title_fallback_b summary \<noteq> [] then title_fallback_b summary else [])"
proof -
  have e: "py_strip [] = []" by (simp add: py_strip_def)
  show ?thesis
    by (cases "summary = []")
      (auto simp: title_from_first_sentence_def title_fallback_b_def py_split_first_eq Let_def e)
qed

lemma title_from_summary_eq:
  "title_from_summary summary t = (if t \<noteq> [] then t else title_fallback_c summary)"
  by (auto simp: title_from_summary_def title_fallback_c_def)

text \<open>
  Claim C3, as the code has it. When the title pattern finds nothing, or only
  whitespace after \<open>Title:\<close>, the title of \<open>_parse_gemini_output\<close> (analyzer.py)
  is the first non-empty candidate of (a), (b), (c), and empty when all three are; (c)
  adds the ellipsis only to a summary longer than 100 code points. The title of
  \<open>parse_gemini_output\<close> (agent\_scraper.py), which has no step (c), is the first
  non-empty candidate of (a), (b) when there is one.
\<close>

theorem title_fallback_chain:
  assumes "extract_title s = []"
  shows "title (analyzer_parse_gemini_output s) =
           first_nonempty [title_fallback_a s,
             title_fallback_b (executive_summary (analyzer_parse_gemini_output s)),
             title_fallback_c (executive_summary (analyzer_parse_gemini_output s))] \<and>
         (first_nonempty [title_fallback_a s,
             title_fallback_b (executive_summary (parse_gemini_output s))] \<noteq> [] \<longrightarrow>
          title (parse_gemini_output s) =
            first_nonempty [title_fallback_a s,
              title_fallback_b (executive_summary (parse_gemini_output s))])"
  using assms
  by (simp add: parse_gemini_output_def analyzer_parse_gemini_output_def Let_def
      title_from_first_line_eq title_from_first_sentence_eq title_from_summary_eq
      first_nonempty_def)

lemma sentence_summary: "extract_summary sentence_reply = ascii ''Hello. World''"
  by (simp add: sentence_reply_def extract_summary_def summary_re_at_def
      summary_heading_at_def topics_lookahead_def heading_defs py_strip_def char_class_defs)

lemma sentence_title: "extract_title sentence_reply = []"
  by (simp add: sentence_reply_def extract_title_def title_re_at_def heading_defs
      py_strip_def char_class_defs)

theorem title_fallback_chain_witness:
  "extract_title sentence_reply = [] \<and>
   first_nonempty [title_fallback_a sentence_reply,
     title_fallback_b (executive_summary (parse_gemini_output sentence_reply))] \<noteq> [] \<and>
   title (analyzer_parse_gemini_output sentence_reply) = ascii ''Hello'' \<and>
   title (parse_gemini_output sentence_reply) = ascii ''Hello''"
proof -
  have a: "title_fallback_a sentence_reply = []"
    by (simp add: title_fallback_a_def first_line_def starts_with_heading_marker_def
        sentence_reply_def heading_defs)
  have b: "title_fallback_b (ascii ''Hello. World'') = ascii ''Hello''"
    by (simp add: title_fallback_b_def ascii_def py_strip_def is_space_def)
  from title_fallback_chain [OF sentence_title] sentence_title
  show ?thesis
    by (simp add: summary_parse sentence_summary a b first_nonempty_def) (simp add: ascii_def)
qed

text \<open>
  The claim as worded makes (c) the first 100 code points of the summary and an ellipsis.
  For the summary ".x", where (a) and (b) give nothing, the title of
  \<open>_parse_gemini_output\<close> is ".x", without an ellipsis, and that of
  \<open>parse_gemini_output\<close> is empty.
\<close>

lemma dot_summary: "extract_summary dot_reply = ascii ''.x''"
  by (simp add: dot_reply_def extract_summary_def summary_re_at_def
      summary_heading_at_def topics_lookahead_def heading_defs py_strip_def char_class_defs)

lemma dot_title: "extract_title dot_reply = []"
  by (simp add: dot_reply_def extract_title_def title_re_at_def heading_defs
      py_strip_def char_class_defs)

theorem title_fallback_counterexample:
  "title (analyzer_parse_gemini_output dot_reply) = ascii ''.x'' \<and>
   executive_summary (analyzer_parse_gemini_output dot_reply) = ascii ''.x'' \<and>
   title (analyzer_parse_gemini_output dot_reply) \<noteq>
     take 100 (executive_summary (analyzer_parse_gemini_output dot_reply)) @ ascii ''...'' \<and>
   title (parse_gemini_output dot_reply) = []"
  unfolding parse_gemini_output_def analyzer_parse_gemini_output_def Let_def dot_summary dot_title
  by (simp add: title_from_first_line_def title_from_first_sentence_def title_from_summary_def
      first_line_re_match_def py_split_first_def dot_reply_def heading_defs py_strip_def is_space_def)



section \<open>Properties of the orchestrators\<close>

lemma example_video_id: "get_video_id example_url = Some (ascii ''abc123'')"
  by (simp add: get_video_id_def example_url_def ascii_def py_split_first_def py_split_last_def)

lemma example_has_video_id: "\<not> no_video_id (get_video_id example_url)"
  by (simp add: example_video_id no_video_id_def ascii_def)

text \<open>
  Claim C6. In each of the three orchestrators, when the URL gives a video identifier,
  the transcript service returns a non-empty list of segments and the analysis of the
  transcript returns, the run produces that analysis and the audio download is never
  called.
\<close>

theorem transcript_success_skips_audio:
  assumes "\<not> no_video_id (get_video_id url)"
    and "fetch_result w = Returned segments" and "segments \<noteq> []"
  shows "(\<forall>a. fst (agent_analyze_transcript_data w segments) = Returned a \<longrightarrow>
            fst (agent_run_agent w url) = Some a \<and>
            DownloadAudio \<notin> set (snd (snd (agent_run_agent w url)))) \<and>
         (\<forall>a. fst (analyzer_analyze_transcript_data w segments) = Returned a \<longrightarrow>
            (\<exists>r. main w url = Some r \<and> fst r = Some a \<and> DownloadAudio \<notin> set (snd (snd r)))) \<and>
         (\<forall>a. fst (auto_analyze_transcript_data w segments) = Returned a \<longrightarrow>
            (\<exists>r. auto_run_agent w url = Some r \<and> fst r = Some a \<and>
                 DownloadAudio \<notin> set (snd (snd r))))"
proof (intro conjI allI impI)
  fix a assume "fst (agent_analyze_transcript_data w segments) = Returned a"
  then have "agent_plan_a w = (Returned a, [FetchTranscript, GenerateFromText])"
    using assms(2)
    by (auto simp: agent_plan_a_def agent_analyze_transcript_data_def
        split: outcome.splits sum.splits)
  with assms(1) have "agent_run_agent w url = (Some a, files_before w, [FetchTranscript, GenerateFromText])"
    by (simp add: agent_run_agent_def)
  then show "fst (agent_run_agent w url) = Some a"
    and "DownloadAudio \<notin> set (snd (snd (agent_run_agent w url)))" by simp_all
next
  fix a assume "fst (analyzer_analyze_transcript_data w segments) = Returned a"
  then have "main_plan_a w = (Some a, [FetchTranscript, GenerateFromText])"
    using assms(2,3)
    by (auto simp: main_plan_a_def analyzer_analyze_transcript_data_def
        split: outcome.splits sum.splits)
  with assms(1) have "main w url = Some (Some a, files_before w, [FetchTranscript, GenerateFromText])"
    by (simp add: main_def)
  then show "\<exists>r. main w url = Some r \<and> fst r = Some a \<and> DownloadAudio \<notin> set (snd (snd r))"
    by simp
next
  fix a assume "fst (auto_analyze_transcript_data w segments) = Returned a"
  then have "auto_plan_a w = (Returned a, [FetchTranscript, GenerateFromText])"
    using assms(2)
    by (auto simp: auto_plan_a_def auto_analyze_transcript_data_def
        split: outcome.splits sum.splits if_splits)
  with assms(1) have
    "auto_run_agent w url = Some (Some a, files_before w, [FetchTranscript, GenerateFromText])"
    by (simp add: auto_run_agent_def)
  then show "\<exists>r. auto_run_agent w url = Some r \<and> fst r = Some a \<and>
                 DownloadAudio \<notin> set (snd (snd r))"
    by simp
qed

theorem transcript_success_skips_audio_witness:
  "\<not> no_video_id (get_video_id example_url) \<and>
   fst (agent_analyze_transcript_data calm_world [\<lparr>start = Finite 0, segment_text = ascii ''hello''\<rparr>]) =
     Returned (parse_gemini_output template_reply) \<and>
   fst (agent_run_agent calm_world example_url) = Some (parse_gemini_output template_reply) \<and>
   DownloadAudio \<notin> set (snd (snd (agent_run_agent calm_world example_url)))"
proof -
  let ?segs = "[\<lparr>start = Finite 0, segment_text = ascii ''hello''\<rparr>]"
  have f: "fetch_result calm_world = Returned ?segs" by (simp add: calm_world_def)
  have n: "?segs \<noteq> []" by simp
  have a: "fst (agent_analyze_transcript_data calm_world ?segs) =
           Returned (parse_gemini_output template_reply)"
    by (simp add: agent_analyze_transcript_data_def calm_world_def format_0)
  from transcript_success_skips_audio [OF example_has_video_id f n] a example_has_video_id
  show ?thesis by blast
qed

text \<open>
  Claim C5 asks that the downloaded audio file is deleted on every way out of the second
  plan. \<open>run_agent\<close> of agent\_scraper.py calls \<open>os.remove\<close> only after
  \<open>analyze_audio\<close> has returned: when the transcript is unavailable, the download leaves
  \<open>audio.mp3\<close> and the audio analysis raises, the run ends without a result, the file
  still exists and no call removed it.
\<close>

theorem agent_leaves_audio_file:
  "agent_run_agent failing_audio_world example_url =
     (None, {ascii ''audio.mp3''},
      [FetchTranscript, DownloadAudio, UploadFile, GenerateFromAudio])"
  by (simp add: agent_run_agent_def example_has_video_id agent_plan_a_def agent_plan_b_def
      download_audio_def agent_analyze_audio_def failing_audio_world_def calm_world_def ascii_def)

text \<open>
  The other two orchestrators remove the file in a \<open>finally\<close> block: whenever their
  second plan ends, the file is gone.
\<close>

lemma auto_plan_b_removes_file:
  assumes "auto_plan_b w = Some (r, files, tr)" and "download_audio w = Some p"
  shows "p \<notin> files"
  using assms
  by (auto simp: auto_plan_b_def download_audio_def ascii_def Let_def
      split: if_splits option.splits outcome.splits prod.splits)

lemma main_plan_b_removes_file:
  assumes "main_plan_b w = Some (r, files, tr)" and "temp_file w = Returned p" and "p \<noteq> []"
  shows "p \<notin> files"
  using assms
  by (auto simp: main_plan_b_def split: if_splits option.splits outcome.splits prod.splits)

subsection \<open>Waiting for the uploaded file\<close>

lemma poll_file_done: "st \<noteq> PROCESSING \<Longrightarrow> poll_file get n st = Some (Returned st, n)"
  by (subst poll_file.simps) simp

lemma poll_file_result:
  assumes "poll_file get n st = Some y"
  shows "\<forall>st' k. y = (Returned st', k) \<longrightarrow> st' \<noteq> PROCESSING"
  using assms
proof (induction rule: poll_file.raw_induct [rotated 1, consumes 1])
  case (1 poll get n st y)
  then show ?case by (auto split: if_splits outcome.splits)
qed

lemma poll_file_leaves_processing:
  "poll_file get n st = Some (Returned st', k) \<Longrightarrow> st' \<noteq> PROCESSING"
  using poll_file_result by blast

lemma poll_file_terminates:
  "get (n + d) \<noteq> Returned PROCESSING \<Longrightarrow> \<exists>r. poll_file get n st = Some r"
proof (induction d arbitrary: n st)
  case 0
  then show ?case
    by (subst poll_file.simps) (auto split: outcome.splits simp: poll_file_done)
next
  case (Suc d)
  then have "get (Suc n + d) \<noteq> Returned PROCESSING" by simp
  from Suc.IH [OF this] show ?case
    by (subst poll_file.simps) (auto split: outcome.splits)
qed

lemma agent_analyze_audio_processing:
  "upload_result w = Returned PROCESSING \<Longrightarrow> agent_analyze_audio w = (Raised, [UploadFile])"
  by (simp add: agent_analyze_audio_def)

text \<open>
  Whatever the model answers, \<open>analyze_audio\<close> of analyzer.py and of agent\_scraper.py
  send the generation request for a file whose upload ended in the state \<open>FAILED\<close>.
\<close>

lemma failed_state_request_sent:
  assumes "upload_result w = Returned FAILED"
  shows "\<exists>r. analyzer_analyze_audio w = Some (r, [UploadFile, GenerateFromAudio])"
    and "\<exists>r. agent_analyze_audio w = (r, [UploadFile, GenerateFromAudio])"
    and "auto_analyze_audio w = Some (Raised, [UploadFile])"
  using assms
  by (auto simp: analyzer_analyze_audio_def agent_analyze_audio_def auto_analyze_audio_def
      poll_file_done split: outcome.splits)

text \<open>
  Claim C7 asks that the audio analysis raises, and sends no generation request, when the
  uploaded file ends in the state \<open>FAILED\<close>. Only \<open>analyze_audio\<close> of auto\_scraper.py
  tests for that state. In a world where the upload returns a file in the state
  \<open>FAILED\<close>, \<open>analyze_audio\<close> of analyzer.py and of agent\_scraper.py send the
  generation request and return what the parser makes of the reply; that of
  auto\_scraper.py raises before the request.
\<close>

theorem failed_upload_still_generates:
  "analyzer_analyze_audio failed_upload_world =
     Some (Returned (analyzer_parse_gemini_output template_reply),
           [UploadFile, GenerateFromAudio]) \<and>
   agent_analyze_audio failed_upload_world =
     (Returned (parse_gemini_output template_reply), [UploadFile, GenerateFromAudio]) \<and>
   auto_analyze_audio failed_upload_world = Some (Raised, [UploadFile])"
  by (simp add: analyzer_analyze_audio_def agent_analyze_audio_def auto_analyze_audio_def
      failed_upload_world_def calm_world_def poll_file_done)


end
